theory Spec2Isabelle
  imports Complex_Main "HOL-Library.Log_Nat"
begin

section \<open>Data model of \<open>src/main.py\<close>\<close>

text \<open>
  The bot keeps three module-level dictionaries (\<open>USER_STATES\<close>, \<open>ACTIVE_CLIENTS\<close>,
  \<open>PROGRESS_MESSAGES\<close>) and one MongoDB collection (\<open>sessions\<close>).  Everything else it
  does is a call on an external collaborator: the Telethon client, the Bot API, the
  database driver, the wall clock.  The embedding threads a state record through every
  handler and records every table write and every external call, with its outcome, in a
  trace.  The outcome of an external call is read from an environment record, so a
  handler is a function of the environment, the inbound update and the state.
\<close>

subsection \<open>Python exceptions\<close>

datatype exc_class =
  ZeroDivisionError | OverflowError | AttributeError | TypeError | ConnectionError | RPCError

text \<open>An exception instance: its class and \<open>str(e)\<close>.\<close>

datatype error = Raised exc_class string

fun str_of :: "error \<Rightarrow> string" where
  "str_of (Raised c m) = m"

fun class_of :: "error \<Rightarrow> exc_class" where
  "class_of (Raised c m) = c"

subsection \<open>Telethon messages and media\<close>

datatype attribute = DocumentAttributeFilename string | OtherAttribute

text \<open>
  \<open>MessageMediaDocument.document\<close> is optional in Telethon; its \<open>attributes\<close> are read
  by \<open>get_filename\<close>.  Every other media class (web page, geo point, poll, ...) is
  \<open>OtherMedia\<close>.
\<close>

datatype media =
  MessageMediaDocument "attribute list option" | MessageMediaPhoto | OtherMedia

record message =
  msg_id :: int
  msg_media :: "media option"

subsection \<open>Characters and strings\<close>

definition newline :: char where
  "newline = CHR 0x0A"

text \<open>The emoji of the bot's texts, as their UTF-8 bytes.\<close>

definition emoji_cross :: string where
  "emoji_cross = [CHR 0xE2, CHR 0x9D, CHR 0x8C]"

definition emoji_check :: string where
  "emoji_check = [CHR 0xE2, CHR 0x9C, CHR 0x85]"

definition emoji_lock :: string where
  "emoji_lock = [CHR 0xF0, CHR 0x9F, CHR 0x94, CHR 0x92]"

definition emoji_key :: string where
  "emoji_key = [CHR 0xF0, CHR 0x9F, CHR 0x94, CHR 0x91]"

definition emoji_phone :: string where
  "emoji_phone = [CHR 0xF0, CHR 0x9F, CHR 0x93, CHR 0xB1]"

definition emoji_inbox :: string where
  "emoji_inbox = [CHR 0xF0, CHR 0x9F, CHR 0x93, CHR 0xA5]"

text \<open>
  A text is held as the list of its UTF-8 bytes, so a character outside ASCII is a
  sequence of two to four bytes, none of which is an ASCII byte.  \<open>ascii_text\<close> holds
  of the texts of ASCII characters.
\<close>

definition ascii_text :: "string \<Rightarrow> bool" where
  "ascii_text t = list_all (\<lambda>c. (of_char c :: nat) < 128) t"

text \<open>
  A Telegram text message has at most 4096 characters.  A text of at most that many
  bytes has at most that many characters.
\<close>

definition telegram_text_limit :: nat where
  "telegram_text_limit = 4096"

text \<open>\<open>str.startswith\<close>.\<close>

definition startswith :: "string \<Rightarrow> string \<Rightarrow> bool" where
  "startswith s p = (take (length p) s = p)"

text \<open>
  The characters for which \<open>str.isspace()\<close> holds, each as its UTF-8 bytes: in ASCII
  \<open>\t \n \v \f \r\<close>, the separators \<open>0x1C .. 0x1F\<close> and the space; outside ASCII
  \<open>U+0085\<close>, \<open>U+00A0\<close>, \<open>U+1680\<close>, \<open>U+2000\<close> to \<open>U+200A\<close>, \<open>U+2028\<close>, \<open>U+2029\<close>,
  \<open>U+202F\<close>, \<open>U+205F\<close> and \<open>U+3000\<close>.
\<close>

definition whitespace :: "string list" where
  "whitespace =
     map (\<lambda>c. [c]) [CHR 0x09, CHR 0x0A, CHR 0x0B, CHR 0x0C, CHR 0x0D,
                     CHR 0x1C, CHR 0x1D, CHR 0x1E, CHR 0x1F, CHR 0x20] @
     [[CHR 0xC2, CHR 0x85], [CHR 0xC2, CHR 0xA0], [CHR 0xE1, CHR 0x9A, CHR 0x80]] @
     map (\<lambda>c. [CHR 0xE2, CHR 0x80, c])
       [CHR 0x80, CHR 0x81, CHR 0x82, CHR 0x83, CHR 0x84, CHR 0x85, CHR 0x86, CHR 0x87,
        CHR 0x88, CHR 0x89, CHR 0x8A, CHR 0xA8, CHR 0xA9, CHR 0xAF] @
     [[CHR 0xE2, CHR 0x81, CHR 0x9F], [CHR 0xE3, CHR 0x80, CHR 0x80]]"

text \<open>Removing from the front of a text every leading character that is among \<open>ws\<close>.\<close>

function lstrip_chars :: "string list \<Rightarrow> string \<Rightarrow> string" where
  "lstrip_chars ws s =
     (case find (\<lambda>w. w \<noteq> [] \<and> startswith s w) ws of
        None \<Rightarrow> s
      | Some w \<Rightarrow> lstrip_chars ws (drop (length w) s))"
  by pat_completeness auto

termination
proof (relation "measure (\<lambda>(ws, s). length s)")
  show "wf (measure (\<lambda>(ws, s). length s))"
    by simp
next
  fix ws :: "string list" and s w :: string
  assume "find (\<lambda>w. w \<noteq> [] \<and> startswith s w) ws = Some w"
  then have "w \<noteq> []" and "take (length w) s = w"
    by (auto simp: find_Some_iff startswith_def)
  then have "s \<noteq> []"
    by auto
  with \<open>w \<noteq> []\<close> show "((ws, drop (length w) s), (ws, s)) \<in> measure (\<lambda>(ws, s). length s)"
    by simp
qed

declare lstrip_chars.simps [simp del]

text \<open>
  \<open>str.strip()\<close>: the white space at both ends is removed.  At the end of the text the
  bytes of a character are met last byte first.
\<close>

definition strip :: "string \<Rightarrow> string" where
  "strip s = rev (lstrip_chars (map rev whitespace) (rev (lstrip_chars whitespace s)))"

text \<open>\<open>str.split(sep)\<close> for a one-character separator: empty fields are kept.\<close>

fun split :: "char \<Rightarrow> string \<Rightarrow> string list" where
  "split sep [] = [[]]"
| "split sep (c # cs) =
     (if c = sep then [] # split sep cs
      else (case split sep cs of
              [] \<Rightarrow> [[c]]
            | w # ws \<Rightarrow> (c # w) # ws))"

text \<open>
  The regular expression class \<open>\d\<close> on one ASCII character, and \<open>int()\<close> on a string of
  ASCII digits.  Outside ASCII, \<open>\d\<close> and \<open>int()\<close> also accept the decimal digits of the
  other scripts, by the Unicode database of the interpreter, which is not modelled: no
  byte of such a digit is a digit here.  CPython from 3.11 on refuses a string of more
  than 4300 digits with \<open>ValueError\<close>; a text within \<open>telegram_text_limit\<close> has no such
  run of digits, and \<open>int_of_digits\<close> has no such limit.
\<close>

definition isdigit :: "char \<Rightarrow> bool" where
  "isdigit c = (48 \<le> (of_char c :: nat) \<and> (of_char c :: nat) \<le> 57)"

definition digit_value :: "char \<Rightarrow> int" where
  "digit_value c = int (of_char c) - 48"

definition int_of_digits :: "string \<Rightarrow> int" where
  "int_of_digits ds = foldl (\<lambda>n c. 10 * n + digit_value c) 0 ds"

subsection \<open>\<open>parse_tg_link\<close>\<close>

text \<open>
  \<^verbatim>\<open>re.match(r"https://t\.me/c/(\d+)/(\d+)", link)\<close> anchors the pattern at the start of
  \<open>link\<close> only.  Both groups are greedy digit runs, the first followed by a slash; no
  backtracking can succeed where the greedy match fails, since a shorter first group is
  followed by a digit.  The result is the pair \<open>(None, None)\<close> when there is no match.
  With \<open>isdigit\<close> and \<open>int_of_digits\<close>, this is the function of the source on the
  links that satisfy \<open>ascii_text\<close> and are within \<open>telegram_text_limit\<close>.
\<close>

definition link_prefix :: string where
  "link_prefix = ''https://t.me/c/''"

definition parse_tg_link :: "string \<Rightarrow> int option \<times> int option" where
  "parse_tg_link link =
     (if startswith link link_prefix then
        (let rest = drop (length link_prefix) link;
             g1 = takeWhile isdigit rest;
             rest1 = dropWhile isdigit rest
         in (case rest1 of
               [] \<Rightarrow> (None, None)
             | c # rest2 \<Rightarrow>
                 (let g2 = takeWhile isdigit rest2
                  in if g1 \<noteq> [] \<and> c = CHR ''/'' \<and> g2 \<noteq> []
                     then (Some (int_of_digits g1), Some (int_of_digits g2))
                     else (None, None))))
      else (None, None))"

subsection \<open>\<open>get_filename\<close>\<close>

text \<open>
  \<open>stamp\<close> is the rendering of \<open>datetime.now().timestamp()\<close> at the call.  A document
  without a \<open>DocumentAttributeFilename\<close> leaves the loop and the \<open>if\<close> and reaches the last
  \<open>return\<close>; a document that is \<open>None\<close> raises \<open>AttributeError\<close> on \<open>.attributes\<close>.
\<close>

fun first_file_name :: "attribute list \<Rightarrow> string option" where
  "first_file_name [] = None"
| "first_file_name (DocumentAttributeFilename n # as) = Some n"
| "first_file_name (OtherAttribute # as) = first_file_name as"

definition get_filename :: "string \<Rightarrow> media option \<Rightarrow> error + string" where
  "get_filename stamp m =
     (case m of
        Some (MessageMediaDocument None) \<Rightarrow>
          Inl (Raised AttributeError
                 (CHR 0x27 # ''NoneType'' @ CHR 0x27 # '' object has no attribute '' @
                  CHR 0x27 # ''attributes'' @ [CHR 0x27]))
      | Some (MessageMediaDocument (Some attrs)) \<Rightarrow>
          (case first_file_name attrs of
             Some n \<Rightarrow> Inr n
           | None \<Rightarrow> Inr (''file_'' @ stamp))
      | Some MessageMediaPhoto \<Rightarrow> Inr (''photo_'' @ stamp @ ''.jpg'')
      | _ \<Rightarrow> Inr (''file_'' @ stamp))"

subsection \<open>Python floats\<close>

text \<open>
  A Python \<open>float\<close> is an IEEE 754 binary64 number.  A finite one is modelled by the
  rational it denotes, an overflowed one by an infinity.  (The sign of a zero is not
  kept; no computation below can produce a negative zero or a NaN.)
\<close>

datatype pyfloat = Finite rat | PosInf | NegInf

definition pow2 :: "int \<Rightarrow> rat" where
  "pow2 e = (if 0 \<le> e then 2 ^ nat e else 1 / 2 ^ nat (- e))"

text \<open>Rounding to the nearest integer, ties to the even one.\<close>

definition round_half_even :: "rat \<Rightarrow> int" where
  "round_half_even q =
     (let f = \<lfloor>q\<rfloor>; r = q - of_int f
      in if r < 1 / 2 then f
         else if 1 / 2 < r then f + 1
         else if even f then f else f + 1)"

text \<open>The binary exponent of a positive rational: \<open>pow2 e \<le> q < pow2 (e + 1)\<close>.\<close>

definition ilog2 :: "rat \<Rightarrow> int" where
  "ilog2 q =
     (let e = bitlen (fst (quotient_of q)) - bitlen (snd (quotient_of q))
      in if pow2 e \<le> q then e else e - 1)"

text \<open>
  Rounding a rational to binary64, ties to even: 53 significant bits above the
  subnormal range, multiples of \<open>2\<^sup>-\<^sup>1\<^sup>0\<^sup>7\<^sup>4\<close> inside it.  The exponent is not bounded
  above here: a result of magnitude \<open>2\<^sup>1\<^sup>0\<^sup>2\<^sup>4\<close> or more is an overflow, which each
  operation below handles as Python does.
\<close>

definition round_to_double :: "rat \<Rightarrow> rat" where
  "round_to_double q =
     (if q = 0 then 0
      else (let e = max (ilog2 \<bar>q\<bar>) (- 1022);
                quantum = pow2 (e - 52)
            in sgn q * of_int (round_half_even (\<bar>q\<bar> / quantum)) * quantum))"

definition overflows :: "rat \<Rightarrow> bool" where
  "overflows v = (2 ^ 1024 \<le> \<bar>v\<bar>)"

definition to_pyfloat :: "rat \<Rightarrow> pyfloat" where
  "to_pyfloat v = (if overflows v then (if 0 < v then PosInf else NegInf) else Finite v)"

text \<open>\<open>a / b\<close> on two \<open>int\<close>s: correctly rounded, \<open>OverflowError\<close> beyond the float range.\<close>

definition int_truediv :: "int \<Rightarrow> int \<Rightarrow> error + rat" where
  "int_truediv a b =
     (if b = 0 then Inl (Raised ZeroDivisionError ''division by zero'')
      else (let v = round_to_double (of_int a / of_int b)
            in if overflows v
               then Inl (Raised OverflowError ''integer division result too large for a float'')
               else Inr v))"

text \<open>\<open>float(n)\<close>, as applied to the \<open>int\<close> operand of a mixed operation.\<close>

definition int_to_float :: "int \<Rightarrow> error + rat" where
  "int_to_float n =
     (let v = round_to_double (of_int n)
      in if overflows v then Inl (Raised OverflowError ''int too large to convert to float'')
         else Inr v)"

text \<open>
  \<open>x * y\<close> and \<open>x / y\<close> on finite floats (\<open>y\<close> not zero for the quotient): an overflow
  gives an infinity, not an exception.
\<close>

definition float_mul :: "rat \<Rightarrow> rat \<Rightarrow> pyfloat" where
  "float_mul x y = to_pyfloat (round_to_double (x * y))"

definition float_div :: "rat \<Rightarrow> rat \<Rightarrow> pyfloat" where
  "float_div x y = to_pyfloat (round_to_double (x / y))"

text \<open>
  \<open>timedelta.total_seconds()\<close> of a difference of \<open>us\<close> microseconds: the \<open>int\<close> quotient
  \<open>us / 10**6\<close>.  The range of \<open>datetime\<close> keeps it far from overflow.
\<close>

definition total_seconds :: "int \<Rightarrow> rat" where
  "total_seconds us = round_to_double (of_int us / 1000000)"

text \<open>Decimal digits of a natural number, and the format specification \<open>.1f\<close>.\<close>

fun decimal :: "nat \<Rightarrow> string" where
  "decimal n =
     (if n < 10 then [char_of (48 + n)]
      else decimal (n div 10) @ [char_of (48 + n mod 10)])"

declare decimal.simps [simp del]

definition format_1f :: "pyfloat \<Rightarrow> string" where
  "format_1f x =
     (case x of
        PosInf \<Rightarrow> ''inf''
      | NegInf \<Rightarrow> ''-inf''
      | Finite v \<Rightarrow>
          (let t = nat (round_half_even (\<bar>v\<bar> * 10))
           in (if v < 0 then ''-'' else []) @ decimal (t div 10) @ ''.'' @ decimal (t mod 10)))"

text \<open>The argument of \<open>humanize.naturalsize\<close>: an \<open>int\<close> or a \<open>float\<close>.\<close>

datatype pynum = PyInt int | PyFloat pyfloat

subsection \<open>State, trace and environment\<close>

text \<open>A \<open>TelegramClient\<close> object, by the order of its creation.\<close>

type_synonym client = nat

text \<open>
  The values stored in \<open>USER_STATES\<close>: \<open>None\<close> (stored after a successful login), the
  string \<open>"AWAITING_PHONE"\<close>, or the dictionary with the keys \<open>phone\<close>, \<open>sent_code\<close> and
  \<open>client\<close> (the state the specification calls \<open>AWAITING_CODE\<close>).
\<close>

datatype user_state = PyNone | AWAITING_PHONE | AWAITING_CODE string string client

text \<open>
  Writes to the four tables, and calls on the collaborators.  \<open>ReplyText u t\<close> is
  \<open>update.message.reply_text(t)\<close> on an update sent by user \<open>u\<close>; \<open>UpdateOne u c\<close> is the
  upsert of \<open>{"session": c}\<close> under \<open>{"user_id": u}\<close>.
\<close>

datatype action =
    SetUserState int user_state
  | SetActiveClient int client
  | DelActiveClient int
  | SetProgressMessage int "int option"
  | DelProgressMessage int
  | UpdateOne int string
  | DeleteOne int
  | Connect client
  | Disconnect client
  | SendCodeRequest client string
  | SignIn client string string
  | IterMessages client "int option" "int option" "int option"
  | DownloadMedia client message
  | ReplyText int string
  | SendMessage int string
  | EditMessageText int int string
  | DeleteMessage int int
  | SendDocument int string string

text \<open>An event of the trace: the action and, when it raised, the exception.\<close>

type_synonym event = "action \<times> error option"

record state =
  USER_STATES :: "int \<rightharpoonup> user_state"
  ACTIVE_CLIENTS :: "int \<rightharpoonup> client"
  PROGRESS_MESSAGES :: "int \<rightharpoonup> int option"
  sessions :: "int \<rightharpoonup> string"
  trace :: "event list"
  clients_created :: nat

text \<open>An \<open>Update\<close>: the sender's id and the text of the message.\<close>

record update =
  effective_user_id :: int
  message_text :: string

text \<open>
  One invocation of the transport's progress hook during a download: the two byte
  counts it passes and the wall clock (in microseconds) at that moment.
\<close>

record tick =
  received :: nat
  total_bytes :: nat
  clock :: int

text \<open>
  The environment: the allow-list read from the process environment at start-up, and
  the behaviour of the collaborators.  \<open>external\<close> gives the exception, if any, raised
  by a call that returns nothing the handlers use; the other fields belong to the calls
  whose results are used.  \<open>download_media\<close> also gives the invocations of the progress
  hook the transport makes before it returns or raises.  The outcome of a call is a
  function of the call alone.  \<open>naturalsize\<close> is the rendering of
  \<open>humanize.naturalsize\<close> for a number in the float range (for an \<open>int\<close> outside it the
  call raises, see \<open>render_size\<close>), \<open>filename_stamp\<close> the rendering of
  \<open>datetime.now().timestamp()\<close> inside \<open>get_filename\<close> and \<open>start_clock\<close> the reading
  of \<open>datetime.now()\<close> (in microseconds) that becomes \<open>start_time\<close>, for each item.
\<close>

record env =
  ADMINS :: "int list"
  external :: "action \<Rightarrow> error option"
  send_code_request :: "client \<Rightarrow> string \<Rightarrow> error + string"
  session_save :: "client \<Rightarrow> string"
  iter_messages :: "client \<Rightarrow> int option \<Rightarrow> int option \<Rightarrow> int option \<Rightarrow> error + message list"
  download_media :: "client \<Rightarrow> message \<Rightarrow> tick list \<times> (error + string)"
  send_message :: "int \<Rightarrow> string \<Rightarrow> error + int"
  naturalsize :: "pynum \<Rightarrow> string"
  filename_stamp :: "message \<Rightarrow> string"
  start_clock :: "message \<Rightarrow> int"

text \<open>What an action that did not raise does to the tables.\<close>

fun effect :: "action \<Rightarrow> state \<Rightarrow> state" where
  "effect (SetUserState u v) s = s\<lparr>USER_STATES := (USER_STATES s)(u \<mapsto> v)\<rparr>"
| "effect (SetActiveClient u c) s = s\<lparr>ACTIVE_CLIENTS := (ACTIVE_CLIENTS s)(u \<mapsto> c)\<rparr>"
| "effect (DelActiveClient u) s = s\<lparr>ACTIVE_CLIENTS := (ACTIVE_CLIENTS s)(u := None)\<rparr>"
| "effect (SetProgressMessage u v) s = s\<lparr>PROGRESS_MESSAGES := (PROGRESS_MESSAGES s)(u \<mapsto> v)\<rparr>"
| "effect (DelProgressMessage u) s = s\<lparr>PROGRESS_MESSAGES := (PROGRESS_MESSAGES s)(u := None)\<rparr>"
| "effect (UpdateOne u c) s = s\<lparr>sessions := (sessions s)(u \<mapsto> c)\<rparr>"
| "effect (DeleteOne u) s = s\<lparr>sessions := (sessions s)(u := None)\<rparr>"
| "effect a s = s"

definition log_event :: "action \<Rightarrow> error option \<Rightarrow> state \<Rightarrow> state" where
  "log_event a r s = s\<lparr>trace := trace s @ [(a, r)]\<rparr>"

text \<open>A write to one of the in-memory dictionaries: it cannot raise.\<close>

definition store :: "action \<Rightarrow> state \<Rightarrow> state" where
  "store a s = log_event a None (effect a s)"

text \<open>An awaited call on a collaborator: it takes effect unless it raises.\<close>

definition perform :: "env \<Rightarrow> action \<Rightarrow> state \<Rightarrow> error option \<times> state" where
  "perform env a s =
     (case external env a of
        None \<Rightarrow> (None, log_event a None (effect a s))
      | Some e \<Rightarrow> (Some e, log_event a (Some e) s))"

text \<open>Sequencing: an exception skips the rest.\<close>

definition and_then ::
  "error option \<times> state \<Rightarrow> (state \<Rightarrow> error option \<times> state) \<Rightarrow> error option \<times> state" where
  "and_then r f = (case r of (Some e, s) \<Rightarrow> (Some e, s) | (None, s) \<Rightarrow> f s)"

text \<open>\<open>USER_STATES.get(user_id)\<close>.\<close>

definition get_user_state :: "state \<Rightarrow> int \<Rightarrow> user_state" where
  "get_user_state s u = (case USER_STATES s u of None \<Rightarrow> PyNone | Some v \<Rightarrow> v)"

subsection \<open>\<open>progress_callback\<close>\<close>

text \<open>
  The byte counts \<open>current\<close> and \<open>total\<close> are natural numbers, as the transport passes
  them; \<open>now\<close> is the reading of \<open>datetime.now()\<close> inside the callback.
\<close>

text \<open>\<open>progress = current / total * 100\<close>, rendered by \<open>{progress:.1f}\<close>.\<close>

definition render_progress :: "nat \<Rightarrow> nat \<Rightarrow> error + string" where
  "render_progress current total' =
     (case int_truediv (int current) (int total') of
        Inl e \<Rightarrow> Inl e
      | Inr q \<Rightarrow> Inr (format_1f (float_mul q 100)))"

text \<open>
  \<open>speed = humanize.naturalsize(current / elapsed.total_seconds()) + "/s"
  if elapsed.total_seconds() > 0 else ""\<close>, for an \<open>elapsed\<close> of \<open>us\<close> microseconds.
\<close>

definition render_speed :: "env \<Rightarrow> nat \<Rightarrow> int \<Rightarrow> error + string" where
  "render_speed env current us =
     (if 0 < total_seconds us then
        (case int_to_float (int current) of
           Inl e \<Rightarrow> Inl e
         | Inr c \<Rightarrow> Inr (naturalsize env (PyFloat (float_div c (total_seconds us))) @ ''/s''))
      else Inr [])"

text \<open>
  \<open>humanize.naturalsize(total)\<close> on the \<open>int\<close> \<open>total\<close>: the library converts its
  argument with \<open>float()\<close> before anything else, which raises \<open>OverflowError\<close> for an
  \<open>int\<close> beyond the float range.
\<close>

definition render_size :: "env \<Rightarrow> nat \<Rightarrow> error + string" where
  "render_size env total' =
     (case int_to_float (int total') of
        Inl e \<Rightarrow> Inl e
      | Inr t \<Rightarrow> Inr (naturalsize env (PyInt (int total'))))"

text \<open>
  The text of the progress message.  The statements run in the order of the source:
  the percentage, the rate, then the f-string, in which the size is rendered.
\<close>

definition progress_text :: "env \<Rightarrow> int \<Rightarrow> nat \<Rightarrow> nat \<Rightarrow> int \<Rightarrow> error + string" where
  "progress_text env now current total' start_time =
     (case render_progress current total' of
        Inl e \<Rightarrow> Inl e
      | Inr progress \<Rightarrow>
          (case render_speed env current (now - start_time) of
             Inl e \<Rightarrow> Inl e
           | Inr speed \<Rightarrow>
               (case render_size env total' of
                  Inl e \<Rightarrow> Inl e
                | Inr rendered_size \<Rightarrow>
                    Inr (emoji_inbox @ '' Downloading...'' @ [newline] @
                         ''Progress: '' @ progress @ ''%'' @ [newline] @
                         ''Size: '' @ rendered_size @ [newline] @
                         ''Speed: '' @ speed))))"

text \<open>
  The rest of the callback: edit the progress message of the chat when there is one
  (any exception of the edit is swallowed by the bare \<open>except\<close>), send a new one and
  remember its id otherwise.
\<close>

definition progress_callback ::
  "env \<Rightarrow> int \<Rightarrow> nat \<Rightarrow> nat \<Rightarrow> int \<Rightarrow> int \<Rightarrow> state \<Rightarrow> error option \<times> state" where
  "progress_callback env now current total' chat_id start_time s =
     (case progress_text env now current total' start_time of
        Inl e \<Rightarrow> (Some e, s)
      | Inr message \<Rightarrow>
          (case PROGRESS_MESSAGES s chat_id of
             Some (Some mid) \<Rightarrow> (None, snd (perform env (EditMessageText chat_id mid message) s))
           | _ \<Rightarrow>
               (case send_message env chat_id message of
                  Inl e \<Rightarrow> (Some e, log_event (SendMessage chat_id message) (Some e) s)
                | Inr new_id \<Rightarrow>
                    (None, store (SetProgressMessage chat_id (Some new_id))
                             (log_event (SendMessage chat_id message) None s)))))"

subsection \<open>The command handlers\<close>

definition start :: "env \<Rightarrow> update \<Rightarrow> state \<Rightarrow> error option \<times> state" where
  "start env upd s =
     (if effective_user_id upd \<notin> set (ADMINS env) then (None, s)
      else perform env
             (ReplyText (effective_user_id upd) (emoji_key @ '' Welcome! Use /login to start.'')) s)"

definition login :: "env \<Rightarrow> update \<Rightarrow> state \<Rightarrow> error option \<times> state" where
  "login env upd s =
     (let user_id = effective_user_id upd
      in if user_id \<notin> set (ADMINS env) then (None, s)
         else perform env
                (ReplyText user_id
                   (emoji_phone @ '' Please send your phone number (e.g., +1234567890):''))
                (store (SetUserState user_id AWAITING_PHONE) s))"

text \<open>\<open>logout\<close> has no test of the sender against \<open>ADMINS\<close>.\<close>

definition logout :: "env \<Rightarrow> update \<Rightarrow> state \<Rightarrow> error option \<times> state" where
  "logout env upd s =
     (let user_id = effective_user_id upd
      in and_then
           (case ACTIVE_CLIENTS s user_id of
              Some c \<Rightarrow>
                and_then (perform env (Disconnect c) s)
                  (\<lambda>s1. (None, store (DelActiveClient user_id) s1))
            | None \<Rightarrow> (None, s))
           (\<lambda>s2. and_then (perform env (DeleteOne user_id) s2)
                   (\<lambda>s3. perform env (ReplyText user_id (emoji_lock @ '' Session terminated.'')) s3)))"

subsection \<open>The range download\<close>

text \<open>
  The tasks that the progress hook creates with \<open>asyncio.create_task\<close> are run here to
  completion, one after the other, while the download is awaited; the scheduling of
  the event loop is not modelled.  An exception inside a task stays in the task.
\<close>

fun run_progress_tasks :: "env \<Rightarrow> int \<Rightarrow> int \<Rightarrow> tick list \<Rightarrow> state \<Rightarrow> state" where
  "run_progress_tasks env chat_id start_time [] s = s"
| "run_progress_tasks env chat_id start_time (t # ts) s =
     run_progress_tasks env chat_id start_time ts
       (snd (progress_callback env (clock t) (received t) (total_bytes t) chat_id start_time s))"

text \<open>
  The statements of the \<open>try\<close> block after a download that returned \<open>file_path\<close>:
  \<open>PROGRESS_MESSAGES.get(user_id)\<close> is tested for truth, so the id \<open>0\<close> counts as absent.
\<close>

definition deliver :: "env \<Rightarrow> int \<Rightarrow> string \<Rightarrow> string \<Rightarrow> state \<Rightarrow> error option \<times> state" where
  "deliver env user_id file_path filename s =
     and_then
       (case PROGRESS_MESSAGES s user_id of
          Some (Some mid) \<Rightarrow>
            (if mid \<noteq> 0 then
               and_then (perform env (DeleteMessage user_id mid) s)
                 (\<lambda>s1. (None, store (DelProgressMessage user_id) s1))
             else (None, s))
        | _ \<Rightarrow> (None, s))
       (\<lambda>s2. and_then (perform env (ReplyText user_id (emoji_check @ '' Saved: '' @ filename)) s2)
               (\<lambda>s3. perform env (SendDocument user_id file_path filename) s3))"

text \<open>
  The body of the loop for one message.  \<open>get_filename\<close> is called before the \<open>try\<close>:
  its exception leaves the handler.  Any exception of the \<open>try\<close> block is answered by
  the failure notice.
\<close>

definition process_item ::
  "env \<Rightarrow> update \<Rightarrow> client \<Rightarrow> message \<Rightarrow> state \<Rightarrow> error option \<times> state" where
  "process_item env upd client msg s =
     (let user_id = effective_user_id upd
      in case get_filename (filename_stamp env msg) (msg_media msg) of
           Inl e \<Rightarrow> (Some e, s)
         | Inr filename \<Rightarrow>
             (let start_time = start_clock env msg;
                  s1 = store (SetProgressMessage user_id None) s;
                  ticks = fst (download_media env client msg);
                  result = snd (download_media env client msg);
                  s2 = run_progress_tasks env user_id start_time ticks
                         (log_event (DownloadMedia client msg)
                            (case result of Inl e \<Rightarrow> Some e | Inr file_path \<Rightarrow> None) s1);
                  attempt = (case result of
                               Inl e \<Rightarrow> (Some e, s2)
                             | Inr file_path \<Rightarrow> deliver env user_id file_path filename s2)
              in case attempt of
                   (Some e, s3) \<Rightarrow>
                     perform env
                       (ReplyText user_id
                          (emoji_cross @ '' Failed to download '' @ filename @ '': '' @ str_of e))
                       s3
                 | (None, s3) \<Rightarrow> (None, s3)))"

text \<open>\<open>for msg in reversed(messages)\<close>, on the list already reversed.\<close>

fun download_loop ::
  "env \<Rightarrow> update \<Rightarrow> client \<Rightarrow> message list \<Rightarrow> state \<Rightarrow> error option \<times> state" where
  "download_loop env upd client [] s = (None, s)"
| "download_loop env upd client (msg # msgs) s =
     and_then (process_item env upd client msg s) (download_loop env upd client msgs)"

text \<open>\<open>if msg.media\<close>.\<close>

definition has_media :: "message \<Rightarrow> bool" where
  "has_media msg = (msg_media msg \<noteq> None)"

subsection \<open>\<open>handle_message\<close>\<close>

text \<open>The branch \<open>state == "AWAITING_PHONE"\<close>: nothing here is inside a \<open>try\<close>.\<close>

definition login_phone_step :: "env \<Rightarrow> update \<Rightarrow> state \<Rightarrow> error option \<times> state" where
  "login_phone_step env upd s =
     (let user_id = effective_user_id upd;
          phone = message_text upd;
          client = clients_created s
      in and_then (perform env (Connect client) (s\<lparr>clients_created := Suc client\<rparr>))
           (\<lambda>s1. case send_code_request env client phone of
                    Inl e \<Rightarrow> (Some e, log_event (SendCodeRequest client phone) (Some e) s1)
                  | Inr sent_code \<Rightarrow>
                      perform env
                        (ReplyText user_id (emoji_lock @ '' Enter the Telegram OTP you received:''))
                        (store (SetUserState user_id (AWAITING_CODE phone sent_code client))
                           (log_event (SendCodeRequest client phone) None s1))))"

text \<open>
  The branch \<open>isinstance(state, dict) and "sent_code" in state\<close>: the \<open>try\<close> block, and
  the \<open>except\<close> clause, which only replies.
\<close>

definition login_code_step ::
  "env \<Rightarrow> update \<Rightarrow> string \<Rightarrow> client \<Rightarrow> state \<Rightarrow> error option \<times> state" where
  "login_code_step env upd phone client s =
     (let user_id = effective_user_id upd;
          otp = message_text upd;
          attempt =
            and_then (perform env (SignIn client phone otp) s)
              (\<lambda>s1. let session_string = session_save env client
                     in and_then (perform env (UpdateOne user_id session_string) s1)
                          (\<lambda>s2. and_then
                                   (perform env
                                      (ReplyText user_id (emoji_check @ '' Login successful!''))
                                      (store (SetActiveClient user_id client) s2))
                                   (\<lambda>s3. (None, store (SetUserState user_id PyNone) s3))))
      in case attempt of
           (Some e, s4) \<Rightarrow>
             perform env (ReplyText user_id (emoji_cross @ '' Error: '' @ str_of e)) s4
         | (None, s4) \<Rightarrow> (None, s4))"

text \<open>The branch \<open>update.message.text.startswith("https://t.me/c/")\<close>.\<close>

definition link_request :: "env \<Rightarrow> update \<Rightarrow> state \<Rightarrow> error option \<times> state" where
  "link_request env upd s =
     (let user_id = effective_user_id upd;
          links = split newline (strip (message_text upd))
      in if length links \<noteq> 2 then
           perform env
             (ReplyText user_id (emoji_cross @ '' Send exactly 2 message links (start and end).'')) s
         else
           (let chat_id = fst (parse_tg_link (links ! 0));
                start_id = snd (parse_tg_link (links ! 0));
                end_id = snd (parse_tg_link (links ! 1))
            in case ACTIVE_CLIENTS s user_id of
                 None \<Rightarrow>
                   perform env
                     (ReplyText user_id (emoji_cross @ '' Not logged in! Use /login first.'')) s
               | Some client \<Rightarrow>
                   (case iter_messages env client chat_id start_id end_id of
                      Inl e \<Rightarrow>
                        (Some e, log_event (IterMessages client chat_id start_id end_id) (Some e) s)
                    | Inr enumerated \<Rightarrow>
                        download_loop env upd client (rev (filter has_media enumerated))
                          (log_event (IterMessages client chat_id start_id end_id) None s))))"

definition handle_message :: "env \<Rightarrow> update \<Rightarrow> state \<Rightarrow> error option \<times> state" where
  "handle_message env upd s =
     (let user_id = effective_user_id upd
      in if user_id \<notin> set (ADMINS env) then (None, s)
         else (case get_user_state s user_id of
                 AWAITING_PHONE \<Rightarrow> login_phone_step env upd s
               | AWAITING_CODE phone sent_code client \<Rightarrow> login_code_step env upd phone client s
               | PyNone \<Rightarrow>
                   (if startswith (message_text upd) link_prefix then link_request env upd s
                    else (None, s))))"

section \<open>Reading the trace\<close>

text \<open>The events a handler added to the trace.\<close>

definition new_events :: "state \<Rightarrow> state \<Rightarrow> event list" where
  "new_events s s' = drop (length (trace s)) (trace s')"

text \<open>
  The tables at every point where a handler can be observed: before its first event
  and after each event.
\<close>

fun apply_event :: "event \<Rightarrow> state \<Rightarrow> state" where
  "apply_event (a, None) s = effect a s"
| "apply_event (a, Some e) s = s"

fun observable_points :: "event list \<Rightarrow> state \<Rightarrow> state list" where
  "observable_points [] s = [s]"
| "observable_points (ev # evs) s = s # observable_points evs (apply_event ev s)"

text \<open>Texts replied to the sender, documents sent, and downloads started, in order.\<close>

fun reply_of :: "event \<Rightarrow> string option" where
  "reply_of (ReplyText u t, None) = Some t"
| "reply_of ev = None"

fun document_of :: "event \<Rightarrow> (string \<times> string) option" where
  "document_of (SendDocument u file_path filename, None) = Some (file_path, filename)"
| "document_of ev = None"

fun download_of :: "event \<Rightarrow> message option" where
  "download_of (DownloadMedia c m, r) = Some m"
| "download_of ev = None"

fun enumeration_of :: "event \<Rightarrow> (int option \<times> int option \<times> int option) option" where
  "enumeration_of (IterMessages c chat_id min_id max_id, r) = Some (chat_id, min_id, max_id)"
| "enumeration_of ev = None"

definition replies :: "event list \<Rightarrow> string list" where
  "replies evs = List.map_filter reply_of evs"

definition documents :: "event list \<Rightarrow> (string \<times> string) list" where
  "documents evs = List.map_filter document_of evs"

definition downloads :: "event list \<Rightarrow> message list" where
  "downloads evs = List.map_filter download_of evs"

definition enumerations :: "event list \<Rightarrow> (int option \<times> int option \<times> int option) list" where
  "enumerations evs = List.map_filter enumeration_of evs"

text \<open>
  What the requester is to receive for one item, in the words of the specification: a
  completion notice and the file when the download returns, one failure notice with
  the filename and the error detail when it raises.
\<close>

definition filename_of :: "env \<Rightarrow> message \<Rightarrow> string" where
  "filename_of env m =
     (case get_filename (filename_stamp env m) (msg_media m) of Inl e \<Rightarrow> [] | Inr n \<Rightarrow> n)"

definition expected_notice :: "env \<Rightarrow> client \<Rightarrow> message \<Rightarrow> string" where
  "expected_notice env c m =
     (case snd (download_media env c m) of
        Inl e \<Rightarrow> emoji_cross @ '' Failed to download '' @ filename_of env m @ '': '' @ str_of e
      | Inr file_path \<Rightarrow> emoji_check @ '' Saved: '' @ filename_of env m)"

definition expected_document :: "env \<Rightarrow> client \<Rightarrow> message \<Rightarrow> (string \<times> string) option" where
  "expected_document env c m =
     (case snd (download_media env c m) of
        Inl e \<Rightarrow> None
      | Inr file_path \<Rightarrow> Some (file_path, filename_of env m))"

text \<open>The Bot API calls of the delivery go through.\<close>

definition bot_api_succeeds :: "env \<Rightarrow> bool" where
  "bot_api_succeeds env =
     (\<forall>a. (case a of
             ReplyText u t \<Rightarrow> external env a = None
           | SendDocument u f n \<Rightarrow> external env a = None
           | DeleteMessage u m \<Rightarrow> external env a = None
           | _ \<Rightarrow> True))"

text \<open>Every item has a filename: no document of the batch is \<open>None\<close>.\<close>

definition filenames_defined :: "env \<Rightarrow> message list \<Rightarrow> bool" where
  "filenames_defined env msgs =
     list_all (\<lambda>m. case get_filename (filename_stamp env m) (msg_media m) of
                     Inl e \<Rightarrow> False | Inr n \<Rightarrow> True) msgs"

subsection \<open>The contract of Telethon's \<open>iter_messages\<close>\<close>

text \<open>
  Telethon is not part of the repository.  Its documentation of \<open>iter_messages\<close> says
  of \<open>min_id\<close>: ``All the messages with a lower (older) ID or equal to this will be
  excluded'', of \<open>max_id\<close>: ``All the messages with a higher (newer) ID or equal to this
  will be excluded'', and that messages come newest first unless \<open>reverse\<close> is set; a
  \<open>max_id\<close> of \<open>0\<close>, the default, is no bound.  \<open>history\<close> is the chat, newest first.
\<close>

definition telethon_iter_messages :: "message list \<Rightarrow> int \<Rightarrow> int \<Rightarrow> message list" where
  "telethon_iter_messages history min_id max_id =
     filter (\<lambda>m. min_id < msg_id m \<and> (max_id = 0 \<or> msg_id m < max_id)) history"

text \<open>
  A client over given chats that follows this contract when it is called with a chat
  and two message ids.  A call in which one of the three is \<open>None\<close> is outside the
  contract modelled here (Telethon searches all chats when the entity is \<open>None\<close>, and
  rejects an id that is \<open>None\<close>): its outcome is the parameter \<open>otherwise\<close>.
\<close>

definition telethon_client ::
  "(int \<Rightarrow> message list) \<Rightarrow> (int option \<Rightarrow> int option \<Rightarrow> int option \<Rightarrow> error + message list)
     \<Rightarrow> client \<Rightarrow> int option \<Rightarrow> int option \<Rightarrow> int option \<Rightarrow> error + message list" where
  "telethon_client chats otherwise c chat_id min_id max_id =
     (case (chat_id, min_id, max_id) of
        (Some ch, Some lo, Some hi) \<Rightarrow> Inr (telethon_iter_messages (chats ch) lo hi)
      | _ \<Rightarrow> otherwise chat_id min_id max_id)"

text \<open>
  \<open>adds P s s'\<close>: the trace of \<open>s'\<close> is the trace of \<open>s\<close> followed by events that all
  satisfy \<open>P\<close>.  An event is \<open>silent\<close> when it is none of the four kinds read above.
\<close>

definition adds :: "(event \<Rightarrow> bool) \<Rightarrow> state \<Rightarrow> state \<Rightarrow> bool" where
  "adds P s s' = (\<exists>evs. trace s' = trace s @ evs \<and> list_all P evs)"

definition silent :: "event \<Rightarrow> bool" where
  "silent ev = (reply_of ev = None \<and> document_of ev = None \<and> download_of ev = None \<and>
                enumeration_of ev = None)"

definition no_enumeration :: "event \<Rightarrow> bool" where
  "no_enumeration ev = (enumeration_of ev = None)"


definition progress_event :: "event \<Rightarrow> bool" where
  "progress_event ev =
     (case fst ev of
        SendMessage u t \<Rightarrow> True
      | EditMessageText u m t \<Rightarrow> True
      | SetProgressMessage u v \<Rightarrow> True
      | _ \<Rightarrow> False)"

text \<open>The four tables of a state.\<close>

definition tables ::
  "state \<Rightarrow> (int \<rightharpoonup> user_state) \<times> (int \<rightharpoonup> client) \<times> (int \<rightharpoonup> int option) \<times> (int \<rightharpoonup> string)" where
  "tables s = (USER_STATES s, ACTIVE_CLIENTS s, PROGRESS_MESSAGES s, sessions s)"

text \<open>The unit roundoff of binary64.\<close>

definition eps :: rat where
  "eps = 1 / 2 ^ 53"

text \<open>
  The floats that \<open>current / total * 100\<close> and \<open>current / elapsed.total_seconds()\<close>
  evaluate to when nothing overflows: every operation rounds its exact result once.
\<close>

definition percent_float :: "nat \<Rightarrow> nat \<Rightarrow> rat" where
  "percent_float current total' =
     round_to_double (round_to_double (of_nat current / of_nat total') * 100)"

definition speed_float :: "nat \<Rightarrow> int \<Rightarrow> rat" where
  "speed_float current us = round_to_double (round_to_double (of_nat current) / total_seconds us)"

text \<open>
  A number to one decimal place, in the words of the specification: the nearest
  multiple of one tenth of the number itself, a tie going to the even digit as in the
  format specification \<open>.1f\<close>.
\<close>

definition one_decimal_place :: "rat \<Rightarrow> string" where
  "one_decimal_place x = format_1f (Finite x)"

section \<open>Scenarios\<close>

text \<open>
  Concrete environments, states and updates on which the theorems below are
  instantiated.  \<open>quiet_env\<close> is an environment in which no call raises and every
  enumeration is empty; user \<open>1\<close> is the only operator on the allow-list.
\<close>

definition quiet_env :: env where
  "quiet_env =
     \<lparr>ADMINS = [1],
      external = (\<lambda>a. None),
      send_code_request = (\<lambda>c phone. Inr ''hash''),
      session_save = (\<lambda>c. ''credential''),
      iter_messages = (\<lambda>c chat_id min_id max_id. Inr []),
      download_media = (\<lambda>c m. ([], Inr ''downloads/file'')),
      send_message = (\<lambda>u t. Inr 100),
      naturalsize = (\<lambda>n. ''some bytes''),
      filename_stamp = (\<lambda>m. ''1700000000.5''),
      start_clock = (\<lambda>m. 0)\<rparr>"

definition empty_state :: state where
  "empty_state =
     \<lparr>USER_STATES = Map.empty, ACTIVE_CLIENTS = Map.empty, PROGRESS_MESSAGES = Map.empty,
      sessions = Map.empty, trace = [], clients_created = 0\<rparr>"

definition logged_in_state :: state where
  "logged_in_state =
     empty_state\<lparr>USER_STATES := [1 \<mapsto> PyNone], ACTIVE_CLIENTS := [1 \<mapsto> 0],
                  sessions := [1 \<mapsto> ''credential''], clients_created := 1\<rparr>"

definition request :: "string \<Rightarrow> update" where
  "request t = \<lparr>effective_user_id = 1, message_text = t\<rparr>"

definition document_message :: "int \<Rightarrow> string \<Rightarrow> message" where
  "document_message i name =
     \<lparr>msg_id = i, msg_media = Some (MessageMediaDocument (Some [DocumentAttributeFilename name]))\<rparr>"

text \<open>A batch of three documents; the transport fails on the second.\<close>

definition transport_error :: error where
  "transport_error = Raised ConnectionError ''connection reset''"

definition flaky_env :: env where
  "flaky_env =
     quiet_env\<lparr>download_media :=
       (\<lambda>c m. if msg_id m = 2 then ([], Inl transport_error)
               else ([\<lparr>received = 512000, total_bytes = 1024000, clock = 2000000\<rparr>],
                     Inr (''downloads/'' @ decimal (nat (msg_id m)))))\<rparr>"

definition batch :: "message list" where
  "batch = [document_message 1 ''a.pdf'', document_message 2 ''b.pdf'', document_message 3 ''c.pdf'']"

text \<open>
  A batch whose second item is a document message without its document: Telethon
  leaves \<open>MessageMediaDocument.document\<close> at \<open>None\<close> for media that has expired.
\<close>

definition expired_document :: "int \<Rightarrow> message" where
  "expired_document i = \<lparr>msg_id = i, msg_media = Some (MessageMediaDocument None)\<rparr>"

definition broken_batch :: "message list" where
  "broken_batch = [document_message 1 ''a.pdf'', expired_document 2, document_message 3 ''c.pdf'']"

text \<open>A login in which the platform rejects the code.\<close>

definition invalid_code :: error where
  "invalid_code = Raised RPCError ''The phone code entered was invalid''"

definition rejecting_env :: env where
  "rejecting_env =
     quiet_env\<lparr>external := (\<lambda>a. case a of SignIn c phone otp \<Rightarrow> Some invalid_code | _ \<Rightarrow> None)\<rparr>"

definition code_pending_state :: state where
  "code_pending_state =
     empty_state\<lparr>USER_STATES := [1 \<mapsto> AWAITING_CODE ''+1234567890'' ''hash'' 0],
                  clients_created := 1\<rparr>"

definition otp_update :: update where
  "otp_update = \<lparr>effective_user_id = 1, message_text = ''12345''\<rparr>"

text \<open>Two links into different chats.\<close>

definition two_chats_text :: string where
  "two_chats_text = ''https://t.me/c/1/10'' @ [newline] @ ''https://t.me/c/2/20''"

text \<open>A user outside the allow-list, with and without a restored session.\<close>

definition stranger_logout :: update where
  "stranger_logout = \<lparr>effective_user_id = 999, message_text = ''/logout''\<rparr>"

definition restored_state :: state where
  "restored_state =
     empty_state\<lparr>ACTIVE_CLIENTS := [999 \<mapsto> 0], sessions := [999 \<mapsto> ''credential''],
                  clients_created := 1\<rparr>"

text \<open>A login in which the platform cannot be reached.\<close>

definition unreachable :: error where
  "unreachable = Raised ConnectionError ''Connection to Telegram failed 5 time(s)''"

definition unreachable_env :: env where
  "unreachable_env =
     quiet_env\<lparr>external := (\<lambda>a. case a of Connect c \<Rightarrow> Some unreachable | _ \<Rightarrow> None)\<rparr>"

definition phone_pending_state :: state where
  "phone_pending_state = empty_state\<lparr>USER_STATES := [1 \<mapsto> AWAITING_PHONE]\<rparr>"

text \<open>
  A chat with three documents, behind a client that follows Telethon's contract, and a
  platform that enumerates oldest first.
\<close>

definition chat_history :: "int \<Rightarrow> message list" where
  "chat_history ch =
     (if ch = 1
      then [document_message 12 ''c.pdf'', document_message 11 ''b.pdf'',
            document_message 10 ''a.pdf'']
      else [])"

definition telethon_env :: env where
  "telethon_env =
     quiet_env\<lparr>iter_messages := telethon_client chat_history (\<lambda>chat_id min_id max_id. Inr [])\<rparr>"

definition oldest_first_env :: env where
  "oldest_first_env =
     quiet_env\<lparr>iter_messages :=
       (\<lambda>c chat_id min_id max_id.
          Inr [document_message 10 ''a.pdf'', document_message 11 ''b.pdf''])\<rparr>"


definition endpoints_text :: string where
  "endpoints_text = ''https://t.me/c/1/10'' @ [newline] @ ''https://t.me/c/1/12''"

text \<open>
  The progress example of the specification; \<open>sample_naturalsize\<close> gives the renderings
  of \<open>humanize.naturalsize\<close> for its two numbers.
\<close>

definition sample_naturalsize :: "pynum \<Rightarrow> string" where
  "sample_naturalsize n =
     (if n = PyInt 1024000 then ''1.0 MB''
      else if n = PyFloat (Finite 256000) then ''256.0 kB''
      else ''some bytes'')"

definition sample_env :: env where
  "sample_env = quiet_env\<lparr>naturalsize := sample_naturalsize\<rparr>"

section \<open>The trace of the handlers\<close>

lemma trace_effect [simp]: "trace (effect a s) = trace s"
  by (cases a) simp_all

lemma trace_log_event [simp]: "trace (log_event a r s) = trace s @ [(a, r)]"
  by (simp add: log_event_def)

lemma trace_store [simp]: "trace (store a s) = trace s @ [(a, None)]"
  by (simp add: store_def)

lemma trace_perform [simp]: "trace (snd (perform env a s)) = trace s @ [(a, external env a)]"
  by (cases "external env a") (simp_all add: perform_def)

lemma fst_perform [simp]: "fst (perform env a s) = external env a"
  by (cases "external env a") (simp_all add: perform_def)

lemma new_events_append: "trace s' = trace s @ evs \<Longrightarrow> new_events s s' = evs"
  by (simp add: new_events_def)

lemma adds_new_events: "adds P s s' \<Longrightarrow> trace s' = trace s @ new_events s s'"
  by (auto simp: adds_def new_events_def)

lemma adds_all: "adds P s s' \<Longrightarrow> list_all P (new_events s s')"
  by (auto simp: adds_def new_events_def)

lemma adds_refl: "adds P s s"
  by (simp add: adds_def)

lemma adds_trans: "adds P s s1 \<Longrightarrow> adds P s1 s2 \<Longrightarrow> adds P s s2"
  by (auto simp: adds_def)

lemma adds_mono: "adds P s s' \<Longrightarrow> (\<And>ev. P ev \<Longrightarrow> Q ev) \<Longrightarrow> adds Q s s'"
  by (auto simp: adds_def list_all_iff)

lemma new_events_trans:
  "adds P s s1 \<Longrightarrow> adds Q s1 s2 \<Longrightarrow> new_events s s2 = new_events s s1 @ new_events s1 s2"
  by (auto simp: adds_def new_events_def)

lemma adds_log_event: "P (a, r) \<Longrightarrow> adds P s (log_event a r s)"
  by (simp add: adds_def)

lemma adds_store: "P (a, None) \<Longrightarrow> adds P s (store a s)"
  by (simp add: adds_def)

lemma adds_perform: "P (a, external env a) \<Longrightarrow> adds P s (snd (perform env a s))"
  by (simp add: adds_def)

lemma adds_and_then:
  assumes "adds P s (snd r)" and "\<And>s1. fst r = None \<Longrightarrow> adds P (snd r) (snd (f (snd r)))"
  shows "adds P s (snd (and_then r f))"
proof (cases r)
  case (Pair e s1)
  then show ?thesis
    using assms by (cases e) (auto simp: and_then_def intro: adds_trans)
qed

lemma progress_callback_adds:
  "adds progress_event s (snd (progress_callback env now current total' chat_id start_time s))"
  by (auto simp: progress_callback_def progress_event_def
      intro!: adds_refl adds_perform adds_log_event adds_store adds_trans [OF adds_log_event adds_store]
      split: sum.splits option.splits)

lemma run_progress_tasks_adds:
  "adds progress_event s (run_progress_tasks env chat_id start_time ticks s)"
proof (induction ticks arbitrary: s)
  case Nil
  show ?case by (simp add: adds_refl)
next
  case (Cons t ticks)
  show ?case
    by (simp del: snd_conv) (rule adds_trans [OF progress_callback_adds Cons.IH])
qed

lemma progress_event_silent: "progress_event ev \<Longrightarrow> silent ev"
  by (cases ev; cases "fst ev") (auto simp: progress_event_def silent_def)

lemma run_progress_tasks_silent:
  "\<exists>pevs. trace (run_progress_tasks env chat_id start_time ticks s) = trace s @ pevs \<and>
          list_all silent pevs"
  using run_progress_tasks_adds [of s env chat_id start_time ticks]
  by (auto simp: adds_def list_all_iff intro: progress_event_silent)

lemma bot_api_reply: "bot_api_succeeds env \<Longrightarrow> external env (ReplyText u t) = None"
  unfolding bot_api_succeeds_def by (drule spec [of _ "ReplyText u t"]) simp

lemma bot_api_document: "bot_api_succeeds env \<Longrightarrow> external env (SendDocument u f n) = None"
  unfolding bot_api_succeeds_def by (drule spec [of _ "SendDocument u f n"]) simp

lemma bot_api_delete: "bot_api_succeeds env \<Longrightarrow> external env (DeleteMessage u m) = None"
  unfolding bot_api_succeeds_def by (drule spec [of _ "DeleteMessage u m"]) simp

lemma bot_api_succeeds_quiet: "external env = (\<lambda>a. None) \<Longrightarrow> bot_api_succeeds env"
  by (simp add: bot_api_succeeds_def split: action.splits)

lemma perform_ok: "external env a = None \<Longrightarrow> perform env a s = (None, log_event a None (effect a s))"
  by (simp add: perform_def)

lemma map_filter_append: "List.map_filter f (xs @ ys) = List.map_filter f xs @ List.map_filter f ys"
  by (simp add: List.map_filter_def)

lemma map_filter_silent:
  assumes "list_all silent evs"
  shows "List.map_filter reply_of evs = []" and "List.map_filter document_of evs = []"
    and "List.map_filter download_of evs = []" and "List.map_filter enumeration_of evs = []"
  using assms by (induction evs) (auto simp: silent_def List.map_filter_simps)

lemma map_filter_no_enumeration:
  "list_all no_enumeration evs \<Longrightarrow> List.map_filter enumeration_of evs = []"
  by (induction evs) (auto simp: List.map_filter_simps no_enumeration_def)

lemma silent_no_enumeration: "silent ev \<Longrightarrow> no_enumeration ev"
  by (simp add: silent_def no_enumeration_def)

lemma deliver_events:
  assumes "bot_api_succeeds env"
  shows "fst (deliver env user_id file_path filename s) = None \<and>
         (\<exists>pre. trace (snd (deliver env user_id file_path filename s)) =
                  trace s @ pre @
                    [(ReplyText user_id (emoji_check @ '' Saved: '' @ filename), None),
                     (SendDocument user_id file_path filename, None)] \<and>
                list_all silent pre)"
proof -
  note ok = bot_api_reply [OF assms] bot_api_document [OF assms] bot_api_delete [OF assms]
  show ?thesis
  proof (cases "\<exists>mid. PROGRESS_MESSAGES s user_id = Some (Some mid) \<and> mid \<noteq> 0")
    case True
    then obtain mid where m: "PROGRESS_MESSAGES s user_id = Some (Some mid)" "mid \<noteq> 0"
      by blast
    have "list_all silent [(DeleteMessage user_id mid, None), (DelProgressMessage user_id, None)]"
      by (simp add: silent_def)
    then show ?thesis
      using m by (simp add: deliver_def and_then_def perform_ok ok)
  next
    case False
    then have "deliver env user_id file_path filename s =
        and_then (perform env (ReplyText user_id (emoji_check @ '' Saved: '' @ filename)) s)
          (\<lambda>s3. perform env (SendDocument user_id file_path filename) s3)"
      by (auto simp: deliver_def and_then_def split: option.splits)
    then show ?thesis
      by (simp add: and_then_def perform_ok ok)
  qed
qed

lemma process_item_events:
  assumes api: "bot_api_succeeds env"
    and name: "get_filename (filename_stamp env m) (msg_media m) = Inr filename"
  shows "fst (process_item env upd c m s) = None \<and>
         adds (\<lambda>ev. True) s (snd (process_item env upd c m s)) \<and>
         replies (new_events s (snd (process_item env upd c m s))) = [expected_notice env c m] \<and>
         documents (new_events s (snd (process_item env upd c m s))) =
           (case expected_document env c m of None \<Rightarrow> [] | Some d \<Rightarrow> [d]) \<and>
         downloads (new_events s (snd (process_item env upd c m s))) = [m]"
proof -
  let ?u = "effective_user_id upd"
  let ?s1 = "store (SetProgressMessage ?u None) s"
  let ?run = "run_progress_tasks env ?u (start_clock env m) (fst (download_media env c m))"
  have fn: "filename_of env m = filename"
    by (simp add: filename_of_def name)
  show ?thesis
  proof (cases "snd (download_media env c m)")
    case (Inl e)
    let ?s2 = "?run (log_event (DownloadMedia c m) (Some e) ?s1)"
    let ?notice = "ReplyText ?u (emoji_cross @ '' Failed to download '' @ filename @ '': '' @ str_of e)"
    obtain pevs where pevs: "trace ?s2 = trace (log_event (DownloadMedia c m) (Some e) ?s1) @ pevs"
      "list_all silent pevs"
      using run_progress_tasks_silent by blast
    have pi: "process_item env upd c m s = perform env ?notice ?s2"
      by (simp add: process_item_def name Let_def Inl)
    have tr: "trace (snd (process_item env upd c m s)) =
        trace s @ [(SetProgressMessage ?u None, None), (DownloadMedia c m, Some e)] @ pevs @ [(?notice, None)]"
      by (simp add: pi pevs(1) bot_api_reply [OF api])
    have ne: "new_events s (snd (process_item env upd c m s)) =
        [(SetProgressMessage ?u None, None), (DownloadMedia c m, Some e)] @ pevs @ [(?notice, None)]"
      by (rule new_events_append [OF tr])
    have ad: "adds (\<lambda>ev. True) s (snd (process_item env upd c m s))"
      unfolding adds_def using tr by (simp add: list_all_iff)
    have ok: "fst (process_item env upd c m s) = None"
      by (simp add: pi bot_api_reply [OF api])
    show ?thesis
      unfolding ne
      by (simp add: ok ad replies_def documents_def downloads_def
          map_filter_append map_filter_silent [OF pevs(2)] List.map_filter_simps
          expected_notice_def expected_document_def Inl fn)
  next
    case (Inr file_path)
    let ?s2 = "?run (log_event (DownloadMedia c m) None ?s1)"
    obtain pevs where pevs: "trace ?s2 = trace (log_event (DownloadMedia c m) None ?s1) @ pevs"
      "list_all silent pevs"
      using run_progress_tasks_silent by blast
    obtain pre where pre: "trace (snd (deliver env ?u file_path filename ?s2)) =
        trace ?s2 @ pre @ [(ReplyText ?u (emoji_check @ '' Saved: '' @ filename), None),
                           (SendDocument ?u file_path filename, None)]"
      "list_all silent pre" "fst (deliver env ?u file_path filename ?s2) = None"
      using deliver_events [OF api, of ?u file_path filename ?s2] by blast
    have pi: "process_item env upd c m s = (None, snd (deliver env ?u file_path filename ?s2))"
      using pre(3) by (cases "deliver env ?u file_path filename ?s2")
        (auto simp: process_item_def name Let_def Inr)
    have tr: "trace (snd (process_item env upd c m s)) =
        trace s @ [(SetProgressMessage ?u None, None), (DownloadMedia c m, None)] @ pevs @ pre @
          [(ReplyText ?u (emoji_check @ '' Saved: '' @ filename), None),
           (SendDocument ?u file_path filename, None)]"
      by (simp add: pi pre(1) pevs(1))
    have ne: "new_events s (snd (process_item env upd c m s)) =
        [(SetProgressMessage ?u None, None), (DownloadMedia c m, None)] @ pevs @ pre @
          [(ReplyText ?u (emoji_check @ '' Saved: '' @ filename), None),
           (SendDocument ?u file_path filename, None)]"
      by (rule new_events_append [OF tr])
    have ad: "adds (\<lambda>ev. True) s (snd (process_item env upd c m s))"
      unfolding adds_def using tr by (simp add: list_all_iff)
    have ok: "fst (process_item env upd c m s) = None"
      by (simp add: pi)
    show ?thesis
      unfolding ne
      by (simp add: ok ad replies_def documents_def downloads_def
          map_filter_append map_filter_silent [OF pevs(2)] map_filter_silent [OF pre(2)]
          List.map_filter_simps expected_notice_def expected_document_def Inr fn)
  qed
qed

lemma download_loop_events:
  assumes api: "bot_api_succeeds env"
    and names: "filenames_defined env msgs"
  shows "fst (download_loop env upd c msgs s) = None \<and>
         adds (\<lambda>ev. True) s (snd (download_loop env upd c msgs s)) \<and>
         replies (new_events s (snd (download_loop env upd c msgs s))) =
           map (expected_notice env c) msgs \<and>
         documents (new_events s (snd (download_loop env upd c msgs s))) =
           List.map_filter (expected_document env c) msgs \<and>
         downloads (new_events s (snd (download_loop env upd c msgs s))) = msgs"
  using names
proof (induction msgs arbitrary: s)
  case Nil
  show ?case
    by (simp add: adds_refl new_events_def replies_def documents_def downloads_def
        List.map_filter_simps)
next
  case (Cons m msgs)
  from Cons.prems obtain filename
    where name: "get_filename (filename_stamp env m) (msg_media m) = Inr filename"
      and rest: "filenames_defined env msgs"
    by (auto simp: filenames_defined_def split: sum.splits)
  let ?s1 = "snd (process_item env upd c m s)"
  note item = process_item_events [OF api name, of upd c s]
  note loop = Cons.IH [OF rest, of ?s1]
  have step: "download_loop env upd c (m # msgs) s = download_loop env upd c msgs ?s1"
    using item by (cases "process_item env upd c m s") (simp add: and_then_def)
  have ne: "new_events s (snd (download_loop env upd c msgs ?s1)) =
      new_events s ?s1 @ new_events ?s1 (snd (download_loop env upd c msgs ?s1))"
    using item loop by (blast intro: new_events_trans)
  show ?case
    unfolding step ne
    using item loop
    by (auto simp: replies_def documents_def downloads_def map_filter_append
        List.map_filter_simps intro: adds_trans split: option.splits)
qed

lemma deliver_adds: "adds no_enumeration s (snd (deliver env user_id file_path filename s))"
  unfolding deliver_def
  by (intro adds_and_then adds_perform)
    (auto simp: no_enumeration_def intro!: adds_refl adds_and_then adds_perform adds_store
      split: option.splits)

lemma process_item_adds: "adds no_enumeration s (snd (process_item env upd c m s))"
proof (cases "get_filename (filename_stamp env m) (msg_media m)")
  case (Inl e)
  then show ?thesis by (simp add: process_item_def adds_refl)
next
  case (Inr filename)
  let ?u = "effective_user_id upd"
  let ?s1 = "store (SetProgressMessage ?u None) s"
  let ?run = "run_progress_tasks env ?u (start_clock env m) (fst (download_media env c m))"
  have ticks: "adds no_enumeration s0 (?run s0)" for s0
    by (rule adds_mono [OF run_progress_tasks_adds])
      (simp add: progress_event_silent silent_no_enumeration)
  have s1: "adds no_enumeration s ?s1"
    by (rule adds_store) (simp add: no_enumeration_def)
  show ?thesis
  proof (cases "snd (download_media env c m)")
    case (Inl e)
    let ?s2 = "?run (log_event (DownloadMedia c m) (Some e) ?s1)"
    have "adds no_enumeration s ?s2"
      by (intro adds_trans [OF s1] adds_trans [OF _ ticks] adds_log_event)
        (simp add: no_enumeration_def)
    then show ?thesis
      by (simp add: process_item_def Inr Inl Let_def)
        (erule adds_trans, rule adds_perform, simp add: no_enumeration_def)
  next
    case (Inr file_path)
    let ?s2 = "?run (log_event (DownloadMedia c m) None ?s1)"
    have s2: "adds no_enumeration s ?s2"
      by (intro adds_trans [OF s1] adds_trans [OF _ ticks] adds_log_event)
        (simp add: no_enumeration_def)
    have d: "adds no_enumeration s (snd (deliver env ?u file_path filename ?s2))"
      by (rule adds_trans [OF s2 deliver_adds])
    show ?thesis
    proof (cases "deliver env ?u file_path filename ?s2")
      case (Pair r s3)
      show ?thesis
      proof (cases r)
        case None
        with Pair d show ?thesis
          by (simp add: process_item_def \<open>get_filename _ _ = Inr filename\<close> Inr Let_def)
      next
        case (Some e)
        with Pair d show ?thesis
          by (simp add: process_item_def \<open>get_filename _ _ = Inr filename\<close> Inr Let_def)
            (erule adds_trans, rule adds_perform, simp add: no_enumeration_def)
      qed
    qed
  qed
qed

lemma download_loop_adds: "adds no_enumeration s (snd (download_loop env upd c msgs s))"
proof (induction msgs arbitrary: s)
  case Nil
  show ?case by (simp add: adds_refl)
next
  case (Cons m msgs)
  show ?case
    by (simp del: snd_conv) (intro adds_and_then process_item_adds Cons.IH)
qed

lemma handle_message_link:
  assumes "effective_user_id upd \<in> set (ADMINS env)"
    and "get_user_state s (effective_user_id upd) = PyNone"
    and "startswith (message_text upd) link_prefix"
  shows "handle_message env upd s = link_request env upd s"
  using assms by (simp add: handle_message_def)

lemma link_request_rejected:
  assumes "length (split newline (strip (message_text upd))) \<noteq> 2"
  shows "link_request env upd s =
     perform env (ReplyText (effective_user_id upd)
        (emoji_cross @ '' Send exactly 2 message links (start and end).'')) s"
  using assms by (simp add: link_request_def Let_def)

lemma link_request_enumerates:
  assumes two: "split newline (strip (message_text upd)) = [l1, l2]"
    and live: "ACTIVE_CLIENTS s (effective_user_id upd) = Some c"
  shows "adds (\<lambda>ev. True) s (snd (link_request env upd s)) \<and>
         enumerations (new_events s (snd (link_request env upd s))) =
           [(fst (parse_tg_link l1), snd (parse_tg_link l1), snd (parse_tg_link l2))]"
proof -
  let ?call = "IterMessages c (fst (parse_tg_link l1)) (snd (parse_tg_link l1)) (snd (parse_tg_link l2))"
  show ?thesis
  proof (cases "iter_messages env c (fst (parse_tg_link l1)) (snd (parse_tg_link l1))
                  (snd (parse_tg_link l2))")
    case (Inl e)
    then have "link_request env upd s = (Some e, log_event ?call (Some e) s)"
      by (simp add: link_request_def two live Let_def)
    then show ?thesis
      by (simp add: new_events_def enumerations_def List.map_filter_simps adds_def)
  next
    case (Inr enumerated)
    let ?s1 = "log_event ?call None s"
    let ?s2 = "snd (download_loop env upd c (rev (filter has_media enumerated)) ?s1)"
    have lr: "snd (link_request env upd s) = ?s2"
      by (simp add: link_request_def two live Let_def Inr)
    have a1: "adds (\<lambda>ev. True) s ?s1"
      by (simp add: adds_def)
    have a2: "adds no_enumeration ?s1 ?s2"
      by (rule download_loop_adds)
    have ne: "new_events s ?s2 = new_events s ?s1 @ new_events ?s1 ?s2"
      by (rule new_events_trans [OF a1 a2])
    have "List.map_filter enumeration_of (new_events ?s1 ?s2) = []"
      by (rule map_filter_no_enumeration [OF adds_all [OF a2]])
    moreover have "adds (\<lambda>ev. True) s ?s2"
      by (rule adds_trans [OF a1 adds_mono [OF a2]]) simp
    ultimately show ?thesis
      unfolding lr ne
      by (simp add: enumerations_def map_filter_append new_events_def List.map_filter_simps)
  qed
qed

lemma filenames_defined_rev: "filenames_defined env (rev msgs) = filenames_defined env msgs"
  by (simp add: filenames_defined_def list_all_iff)

lemma link_request_downloads:
  assumes two: "split newline (strip (message_text upd)) = [l1, l2]"
    and live: "ACTIVE_CLIENTS s (effective_user_id upd) = Some c"
    and enum: "iter_messages env c (fst (parse_tg_link l1)) (snd (parse_tg_link l1))
                 (snd (parse_tg_link l2)) = Inr enumerated"
    and api: "bot_api_succeeds env"
    and names: "filenames_defined env (filter has_media enumerated)"
  shows "fst (link_request env upd s) = None \<and>
         downloads (new_events s (snd (link_request env upd s))) =
           rev (filter has_media enumerated) \<and>
         documents (new_events s (snd (link_request env upd s))) =
           List.map_filter (expected_document env c) (rev (filter has_media enumerated)) \<and>
         replies (new_events s (snd (link_request env upd s))) =
           map (expected_notice env c) (rev (filter has_media enumerated))"
proof -
  let ?call = "IterMessages c (fst (parse_tg_link l1)) (snd (parse_tg_link l1)) (snd (parse_tg_link l2))"
  let ?s1 = "log_event ?call None s"
  let ?msgs = "rev (filter has_media enumerated)"
  let ?s2 = "snd (download_loop env upd c ?msgs ?s1)"
  have lr: "link_request env upd s = download_loop env upd c ?msgs ?s1"
    by (simp add: link_request_def two live Let_def enum)
  note loop = download_loop_events [OF api, of ?msgs upd c ?s1, unfolded filenames_defined_rev, OF names]
  have a1: "adds (\<lambda>ev. True) s ?s1"
    by (simp add: adds_def)
  have ne: "new_events s ?s2 = new_events s ?s1 @ new_events ?s1 ?s2"
    using loop by (blast intro: new_events_trans [OF a1])
  have first: "new_events s ?s1 = [(?call, None)]"
    by (simp add: new_events_def)
  show ?thesis
    unfolding lr ne first
    using loop
    by (simp add: downloads_def documents_def replies_def map_filter_append List.map_filter_simps)
qed


text \<open>White space outside ASCII is stripped: a no-break space after the last line break.\<close>

lemma strip_no_break_space:
  "split newline (strip (two_chats_text @ [newline, CHR 0xC2, CHR 0xA0])) =
     [''https://t.me/c/1/10'', ''https://t.me/c/2/20'']"
  by code_simp

lemma two_chats_lines:
  "split newline (strip two_chats_text) = [''https://t.me/c/1/10'', ''https://t.me/c/2/20'']"
  by code_simp

lemma parse_1_10: "parse_tg_link ''https://t.me/c/1/10'' = (Some 1, Some 10)"
  by code_simp

lemma parse_2_20: "parse_tg_link ''https://t.me/c/2/20'' = (Some 2, Some 20)"
  by code_simp

lemma two_chats_prefix: "startswith two_chats_text link_prefix"
  by code_simp








subsection \<open>Handlers for a user outside the allow-list\<close>

lemma start_unlisted:
  "effective_user_id upd \<notin> set (ADMINS env) \<Longrightarrow> start env upd s = (None, s)"
  by (simp add: start_def)

lemma login_unlisted:
  "effective_user_id upd \<notin> set (ADMINS env) \<Longrightarrow> login env upd s = (None, s)"
  by (simp add: login_def)

lemma handle_message_unlisted:
  "effective_user_id upd \<notin> set (ADMINS env) \<Longrightarrow> handle_message env upd s = (None, s)"
  by (simp add: handle_message_def)

subsection \<open>The scenarios\<close>


lemma endpoints_lines:
  "split newline (strip endpoints_text) = [''https://t.me/c/1/10'', ''https://t.me/c/1/12'']"
  by code_simp


lemma parse_1_12: "parse_tg_link ''https://t.me/c/1/12'' = (Some 1, Some 12)"
  by code_simp



lemma endpoints_prefix: "startswith endpoints_text link_prefix"
  by code_simp

lemma request_simps [simp]:
  "effective_user_id (request t) = 1" "message_text (request t) = t"
  by (simp_all add: request_def)

lemma logged_in_state_simps [simp]:
  "get_user_state logged_in_state 1 = PyNone" "ACTIVE_CLIENTS logged_in_state 1 = Some 0"
  by (simp_all add: get_user_state_def logged_in_state_def empty_state_def)

lemma quiet_env_simps [simp]:
  "ADMINS quiet_env = [1]" "bot_api_succeeds quiet_env"
  by (simp_all add: quiet_env_def bot_api_succeeds_quiet)

lemma telethon_env_simps [simp]:
  "ADMINS telethon_env = [1]" "bot_api_succeeds telethon_env"
  by (simp_all add: telethon_env_def quiet_env_def bot_api_succeeds_quiet)

lemma oldest_first_env_simps [simp]:
  "ADMINS oldest_first_env = [1]" "bot_api_succeeds oldest_first_env"
  by (simp_all add: oldest_first_env_def quiet_env_def bot_api_succeeds_quiet)

lemma document_names:
  "filenames_defined env (filter has_media (map (\<lambda>(i, n). document_message i n) ins))"
  by (induction ins) (auto simp: filenames_defined_def document_message_def get_filename_def
      has_media_def)

lemma set_telethon_iter_messages:
  "max_id \<noteq> 0 \<Longrightarrow>
   set (filter has_media (telethon_iter_messages history min_id max_id)) =
     {m \<in> set history. has_media m \<and> min_id < msg_id m \<and> msg_id m < max_id}"
  by (auto simp: telethon_iter_messages_def)

subsection \<open>The code step of the login\<close>

lemma apply_event_reply [simp]: "apply_event (ReplyText u t, r) s = s"
  by (cases r) simp_all

lemma login_code_step_events:
  "new_events s (snd (login_code_step env upd phone client s)) =
     (case external env (SignIn client phone (message_text upd)) of
        Some e \<Rightarrow>
          [(SignIn client phone (message_text upd), Some e),
           (ReplyText (effective_user_id upd) (emoji_cross @ '' Error: '' @ str_of e),
            external env (ReplyText (effective_user_id upd) (emoji_cross @ '' Error: '' @ str_of e)))]
      | None \<Rightarrow>
          (case external env (UpdateOne (effective_user_id upd) (session_save env client)) of
             Some e \<Rightarrow>
               [(SignIn client phone (message_text upd), None),
                (UpdateOne (effective_user_id upd) (session_save env client), Some e),
                (ReplyText (effective_user_id upd) (emoji_cross @ '' Error: '' @ str_of e),
                 external env (ReplyText (effective_user_id upd) (emoji_cross @ '' Error: '' @ str_of e)))]
           | None \<Rightarrow>
               (case external env (ReplyText (effective_user_id upd) (emoji_check @ '' Login successful!'')) of
                  Some e \<Rightarrow>
                    [(SignIn client phone (message_text upd), None),
                     (UpdateOne (effective_user_id upd) (session_save env client), None),
                     (SetActiveClient (effective_user_id upd) client, None),
                     (ReplyText (effective_user_id upd) (emoji_check @ '' Login successful!''), Some e),
                     (ReplyText (effective_user_id upd) (emoji_cross @ '' Error: '' @ str_of e),
                      external env (ReplyText (effective_user_id upd) (emoji_cross @ '' Error: '' @ str_of e)))]
                | None \<Rightarrow>
                    [(SignIn client phone (message_text upd), None),
                     (UpdateOne (effective_user_id upd) (session_save env client), None),
                     (SetActiveClient (effective_user_id upd) client, None),
                     (ReplyText (effective_user_id upd) (emoji_check @ '' Login successful!''), None),
                     (SetUserState (effective_user_id upd) PyNone, None)])))"
  by (rule new_events_append)
    (simp add: login_code_step_def Let_def and_then_def perform_def split: option.splits)

lemma login_code_step_tables:
  "tables (snd (login_code_step env upd phone client s)) =
   tables (last (observable_points (new_events s (snd (login_code_step env upd phone client s))) s))"
proof (cases "external env (SignIn client phone (message_text upd))")
  case (Some e)
  then show ?thesis
    unfolding login_code_step_events
    by (simp add: login_code_step_def Let_def and_then_def perform_def tables_def log_event_def
        split: option.splits)
next
  case None
  note si = None
  show ?thesis
  proof (cases "external env (UpdateOne (effective_user_id upd) (session_save env client))")
    case (Some e)
    with si show ?thesis
      unfolding login_code_step_events
      by (simp add: login_code_step_def Let_def and_then_def perform_def tables_def log_event_def
          split: option.splits)
  next
    case None
    note up = None
    show ?thesis
    proof (cases "external env (ReplyText (effective_user_id upd) (emoji_check @ '' Login successful!''))")
      case (Some e)
      with si up show ?thesis
        unfolding login_code_step_events
        by (simp add: login_code_step_def Let_def and_then_def perform_def tables_def
            log_event_def store_def split: option.splits)
    next
      case None
      with si up show ?thesis
        unfolding login_code_step_events
        by (simp add: login_code_step_def Let_def and_then_def perform_def tables_def
            log_event_def store_def)
    qed
  qed
qed

lemma login_code_step_points:
  assumes "ACTIVE_CLIENTS s (effective_user_id upd) = Some client \<longrightarrow>
           sessions s (effective_user_id upd) = Some (session_save env client)"
  shows "\<forall>t \<in> set (observable_points (new_events s (snd (login_code_step env upd phone client s))) s).
            ACTIVE_CLIENTS t (effective_user_id upd) = Some client \<longrightarrow>
            sessions t (effective_user_id upd) = Some (session_save env client)"
proof (cases "external env (SignIn client phone (message_text upd))")
  case (Some e)
  then show ?thesis
    unfolding login_code_step_events using assms by simp
next
  case None
  note si = None
  show ?thesis
  proof (cases "external env (UpdateOne (effective_user_id upd) (session_save env client))")
    case (Some e)
    with si show ?thesis
      unfolding login_code_step_events using assms by simp
  next
    case None
    note up = None
    show ?thesis
    proof (cases "external env (ReplyText (effective_user_id upd) (emoji_check @ '' Login successful!''))")
      case (Some e)
      with si up show ?thesis
        unfolding login_code_step_events using assms by simp
    next
      case None
      with si up show ?thesis
        unfolding login_code_step_events using assms by simp
    qed
  qed
qed

lemma login_code_step_order:
  "(SetActiveClient (effective_user_id upd) client, None)
     \<in> set (new_events s (snd (login_code_step env upd phone client s))) \<longrightarrow>
   (UpdateOne (effective_user_id upd) (session_save env client), None)
     \<in> set (takeWhile (\<lambda>ev. ev \<noteq> (SetActiveClient (effective_user_id upd) client, None))
              (new_events s (snd (login_code_step env upd phone client s))))"
  unfolding login_code_step_events by (simp split: option.splits)

subsection \<open>Rounding to binary64\<close>

lemma pow2_powi: "pow2 e = 2 powi e"
  by (simp add: pow2_def power_int_def inverse_eq_divide power_one_over)

lemma pow2_pos [simp]: "0 < pow2 e"
  by (simp add: pow2_powi)

lemma pow2_nonzero [simp]: "pow2 e \<noteq> 0"
  by (simp add: pow2_powi)

lemma pow2_add: "pow2 (a + b) = pow2 a * pow2 b"
  by (simp add: pow2_powi power_int_add)

lemma pow2_nat: "0 \<le> e \<Longrightarrow> pow2 e = 2 ^ nat e"
  by (simp add: pow2_def)

lemma pow2_mono: "a \<le> b \<Longrightarrow> pow2 a \<le> pow2 b"
  by (simp add: pow2_powi power_int_increasing)

lemma round_half_even_error: "\<bar>of_int (round_half_even x) - x\<bar> \<le> 1 / 2"
proof -
  have "of_int \<lfloor>x\<rfloor> \<le> x" "x < of_int \<lfloor>x\<rfloor> + 1"
    by linarith+
  then show ?thesis
    by (auto simp: round_half_even_def Let_def abs_le_iff)
qed

lemma round_half_even_nonneg: "0 \<le> x \<Longrightarrow> 0 \<le> round_half_even x"
  by (auto simp: round_half_even_def Let_def)

lemma ilog2_lower:
  assumes "0 < q"
  shows "pow2 (ilog2 q) \<le> q"
proof -
  obtain n d where nd: "quotient_of q = (n, d)"
    by (cases "quotient_of q")
  have d: "0 < d" using quotient_of_denom_pos [OF nd] .
  have q: "q = of_int n / of_int d" using quotient_of_div [OF nd] .
  have n: "0 < n"
    using assms d by (simp add: q zero_less_divide_iff)
  let ?e = "bitlen n - bitlen d"
  have bn: "2 ^ nat (bitlen n - 1) \<le> n" and bd: "d < 2 ^ nat (bitlen d)"
    using bitlen_bounds [OF n] bitlen_bounds [OF d] by simp_all
  have bn1: "1 \<le> bitlen n" and bd1: "1 \<le> bitlen d"
    using n d by (simp_all add: bitlen_alt_def)
  have "?e - 1 = (bitlen n - 1) + (- bitlen d)"
    by simp
  then have "pow2 (?e - 1) = pow2 (bitlen n - 1) * pow2 (- bitlen d)"
    by (simp only: pow2_add)
  also have "\<dots> = 2 ^ nat (bitlen n - 1) / 2 ^ nat (bitlen d)"
    using bn1 bd1 by (simp add: pow2_def)
  also have "\<dots> \<le> of_int n / of_int d"
  proof (rule frac_le)
    show "(2::rat) ^ nat (bitlen n - 1) \<le> of_int n"
      using bn by (metis of_int_le_iff of_int_numeral of_int_power)
    show "of_int d \<le> (2::rat) ^ nat (bitlen d)"
      using bd by (metis less_imp_le of_int_le_iff of_int_numeral of_int_power)
  qed (use d n in simp_all)
  finally have low: "pow2 (?e - 1) \<le> q"
    by (simp add: q)
  show ?thesis
    using low by (simp add: ilog2_def nd Let_def)
qed

lemma round_to_double_zero [simp]: "round_to_double 0 = 0"
  by (simp add: round_to_double_def)

lemma round_to_double_error_quantum:
  assumes "0 < q"
  shows "\<bar>round_to_double q - q\<bar> \<le> pow2 (max (ilog2 q) (- 1022) - 52) / 2"
proof -
  let ?u = "pow2 (max (ilog2 q) (- 1022) - 52)"
  have u: "0 < ?u" by simp
  have rd: "round_to_double q = of_int (round_half_even (q / ?u)) * ?u"
    using assms by (simp add: round_to_double_def Let_def)
  have "\<bar>of_int (round_half_even (q / ?u)) - q / ?u\<bar> * ?u \<le> 1 / 2 * ?u"
    by (rule mult_right_mono [OF round_half_even_error]) (rule less_imp_le [OF u])
  moreover have "\<bar>of_int (round_half_even (q / ?u)) - q / ?u\<bar> * ?u =
      \<bar>of_int (round_half_even (q / ?u)) * ?u - q\<bar>"
  proof -
    have "\<bar>of_int (round_half_even (q / ?u)) - q / ?u\<bar> * ?u =
        \<bar>(of_int (round_half_even (q / ?u)) - q / ?u) * ?u\<bar>"
      by (simp add: abs_mult abs_of_pos [OF u])
    also have "(of_int (round_half_even (q / ?u)) - q / ?u) * ?u =
        of_int (round_half_even (q / ?u)) * ?u - q"
    proof -
      show ?thesis by (simp add: left_diff_distrib)
    qed
    finally show ?thesis .
  qed
  ultimately show ?thesis
    by (simp add: rd)
qed

lemma quantum_normal:
  assumes "pow2 (- 1022) \<le> q"
  shows "pow2 (max (ilog2 q) (- 1022) - 52) / 2 \<le> q * eps"
proof -
  have q: "0 < q"
    using assms pow2_pos [of "- 1022"] by linarith
  have split: "pow2 (e - 52) / 2 = pow2 e * eps" for e
  proof -
    have "pow2 (e - 52) = pow2 e * pow2 (- 52)"
      using pow2_add [of e "- 52"] by simp
    then show ?thesis
      by (simp add: eps_def pow2_def)
  qed
  have "pow2 (max (ilog2 q) (- 1022)) \<le> q"
    using ilog2_lower [OF q] assms by (simp add: max_def)
  then have "pow2 (max (ilog2 q) (- 1022)) * eps \<le> q * eps"
    by (rule mult_right_mono) (simp add: eps_def)
  then show ?thesis
    by (simp only: split)
qed

lemma round_to_double_error_normal:
  assumes "pow2 (- 1022) \<le> q"
  shows "\<bar>round_to_double q - q\<bar> \<le> q * eps"
proof -
  have q: "0 < q"
    using assms pow2_pos [of "- 1022"] by linarith
  show ?thesis
    using round_to_double_error_quantum [OF q] quantum_normal [OF assms] by linarith
qed

lemma round_to_double_error:
  assumes "0 \<le> q"
  shows "\<bar>round_to_double q - q\<bar> \<le> q * eps + pow2 (- 1075)"
proof (cases "q = 0")
  case True
  then show ?thesis by (simp add: less_imp_le)
next
  case False
  with assms have q: "0 < q" by simp
  show ?thesis
  proof (cases "pow2 (- 1022) \<le> q")
    case True
    have "0 < pow2 (- 1075)" by (rule pow2_pos)
    with round_to_double_error_normal [OF True] show ?thesis by linarith
  next
    case False
    have "pow2 (ilog2 q) \<le> q" by (rule ilog2_lower [OF q])
    with False have "pow2 (ilog2 q) < pow2 (- 1022)" by linarith
    then have "ilog2 q < - 1022"
      by (metis linorder_not_less pow2_mono)
    then have m: "max (ilog2 q) (- 1022) - 52 = - 1074"
      by simp
    have "pow2 (- 1074) / 2 = pow2 (- 1075)"
      by (simp add: pow2_def)
    moreover have "0 \<le> q * eps"
      using q by (simp add: eps_def)
    ultimately show ?thesis
      using round_to_double_error_quantum [OF q] unfolding m by linarith
  qed
qed

lemma round_to_double_bounds:
  assumes "pow2 (- 1022) \<le> q"
  shows "q - q * eps \<le> round_to_double q" and "round_to_double q \<le> q + q * eps"
  using round_to_double_error_normal [OF assms] by linarith+

lemma round_to_double_nonneg: "0 \<le> q \<Longrightarrow> 0 \<le> round_to_double q"
  by (simp add: round_to_double_def Let_def round_half_even_nonneg less_imp_le)

lemma round_to_double_nonpos:
  assumes "q \<le> 0"
  shows "round_to_double q \<le> 0"
proof (cases "q = 0")
  case True
  then show ?thesis by simp
next
  case False
  with assms have q: "q < 0" by simp
  let ?u = "pow2 (max (ilog2 \<bar>q\<bar>) (- 1022) - 52)"
  have "0 \<le> \<bar>q\<bar> / ?u"
    by (simp add: less_imp_le)
  then have "0 \<le> round_half_even (\<bar>q\<bar> / ?u)"
    by (rule round_half_even_nonneg)
  then have "0 \<le> of_int (round_half_even (\<bar>q\<bar> / ?u)) * ?u"
    by (simp add: less_imp_le)
  moreover have "round_to_double q = - (of_int (round_half_even (\<bar>q\<bar> / ?u)) * ?u)"
    using q by (simp add: round_to_double_def Let_def)
  ultimately show ?thesis by linarith
qed

lemma tiny: "pow2 (- 1022) = 1 / 2 ^ 1022"
  by (simp add: pow2_def)

lemma format_1f_nonneg:
  assumes "0 \<le> v"
  shows "\<exists>k. format_1f (Finite v) = decimal (k div 10) @ ''.'' @ decimal (k mod 10) \<and>
             \<bar>of_nat k / 10 - v\<bar> \<le> 1 / 20"
proof -
  let ?r = "round_half_even (\<bar>v\<bar> * 10)"
  have r: "0 \<le> ?r"
    using assms by (intro round_half_even_nonneg) simp
  have "\<bar>of_int ?r - v * 10\<bar> \<le> 1 / 2"
    using round_half_even_error [of "\<bar>v\<bar> * 10"] assms by simp
  then have "\<bar>of_int ?r - v * 10\<bar> / 10 \<le> (1 / 2) / 10"
    by (rule divide_right_mono) simp
  moreover have "of_nat (nat ?r) / 10 - v = (of_int ?r - v * 10) / 10"
    using r by (simp add: diff_divide_distrib)
  ultimately have "\<bar>of_nat (nat ?r) / 10 - v\<bar> \<le> 1 / 20"
    by (simp only: abs_divide)
  moreover have "format_1f (Finite v) =
      decimal (nat ?r div 10) @ ''.'' @ decimal (nat ?r mod 10)"
    using assms by (simp add: format_1f_def Let_def)
  ultimately show ?thesis by blast
qed

lemma round_to_double_close:
  assumes "1 / 2 ^ 1022 \<le> q"
  shows "q - q / 2 ^ 53 \<le> round_to_double q" and "round_to_double q \<le> q + q / 2 ^ 53"
  using round_to_double_bounds [of q] assms by (simp_all add: tiny eps_def)

lemma percent_chain:
  fixes q :: rat
  assumes lo: "1 / 2 ^ 1000 \<le> q" and hi: "q < 2 ^ 1000"
  shows "\<not> overflows (round_to_double q) \<and>
         \<not> overflows (round_to_double (round_to_double q * 100)) \<and>
         0 \<le> round_to_double (round_to_double q * 100) \<and>
         \<bar>round_to_double (round_to_double q * 100) - 100 * q\<bar> \<le> (100 * q) / 2 ^ 51"
proof -
  define q1 where "q1 = round_to_double q"
  define q2 where "q2 = round_to_double (q1 * 100)"
  have "1 / 2 ^ 1022 \<le> q"
    using lo by simp
  from round_to_double_close [OF this]
  have b1: "q - q / 2 ^ 53 \<le> q1" "q1 \<le> q + q / 2 ^ 53"
    by (simp_all add: q1_def)
  have "1 / 2 ^ 1022 \<le> q1 * 100"
    using b1(1) lo by simp
  from round_to_double_close [OF this]
  have b2: "q1 * 100 - q1 * 100 / 2 ^ 53 \<le> q2" "q2 \<le> q1 * 100 + q1 * 100 / 2 ^ 53"
    by (simp_all add: q2_def)
  have "0 \<le> q1" "q1 < 2 ^ 1024"
    using b1 lo hi by simp_all
  moreover have "0 \<le> q2" "q2 < 2 ^ 1024"
    using b1 b2 lo hi by simp_all
  moreover have "\<bar>q2 - 100 * q\<bar> \<le> (100 * q) / 2 ^ 51"
  proof (rule abs_leI)
    show "q2 - 100 * q \<le> (100 * q) / 2 ^ 51"
      using b1 b2 lo by simp
    show "- (q2 - 100 * q) \<le> (100 * q) / 2 ^ 51"
      using b1 b2 lo by simp
  qed
  ultimately show ?thesis
    by (simp add: overflows_def q1_def q2_def)
qed

lemma render_progress_accuracy:
  fixes current total' :: nat
  assumes t: "0 < total'" and cb: "current < 2 ^ 1000" and tb: "total' < 2 ^ 1000"
  shows "(\<exists>k. render_progress current total' =
                Inr (decimal (k div 10) @ ''.'' @ decimal (k mod 10)) \<and>
              \<bar>of_nat k / 10 - 100 * of_nat current / (of_nat total' :: rat)\<bar>
                \<le> 1 / 20 + (100 * of_nat current / of_nat total') / 2 ^ 51) \<and>
         render_progress current total' =
           Inr (format_1f (Finite (percent_float current total'))) \<and>
         \<bar>percent_float current total' - 100 * of_nat current / (of_nat total' :: rat)\<bar>
           \<le> (100 * of_nat current / of_nat total') / 2 ^ 51"
proof -
  define q :: rat where "q = of_nat current / of_nat total'"
  let ?q2 = "round_to_double (round_to_double q * 100)"
  have tpos: "(0::rat) < of_nat total'" using t by simp
  have cB: "(of_nat current :: rat) < 2 ^ 1000"
    using cb by (metis of_nat_less_iff of_nat_numeral of_nat_power)
  have tB: "(of_nat total' :: rat) < 2 ^ 1000"
    using tb by (metis of_nat_less_iff of_nat_numeral of_nat_power)
  have t1: "(1::rat) \<le> of_nat total'" using t by (simp add: Suc_leI)
  have "q \<le> of_nat current / 1"
    unfolding q_def by (rule divide_left_mono [OF t1]) (use tpos in simp_all)
  then have qB: "q < 2 ^ 1000"
    using cB by simp
  have facts: "\<not> overflows (round_to_double q) \<and> \<not> overflows ?q2 \<and> 0 \<le> ?q2 \<and>
      \<bar>?q2 - 100 * q\<bar> \<le> (100 * q) / 2 ^ 51"
  proof (cases "current = 0")
    case True
    then show ?thesis by (simp add: overflows_def q_def)
  next
    case False
    then have c1: "(1::rat) \<le> of_nat current" by (simp add: Suc_leI)
    have "1 / 2 ^ 1000 \<le> 1 / (of_nat total' :: rat)"
      using tB tpos by (intro divide_left_mono) simp_all
    also have "\<dots> \<le> q"
      unfolding q_def using c1 tpos by (simp add: divide_right_mono)
    finally have qlow: "1 / 2 ^ 1000 \<le> q" .
    show ?thesis
      by (rule percent_chain [OF qlow qB])
  qed
  then have rp: "render_progress current total' = Inr (format_1f (Finite ?q2))"
    using t by (simp add: render_progress_def int_truediv_def Let_def float_mul_def
        to_pyfloat_def q_def)
  from facts obtain k where k: "format_1f (Finite ?q2) = decimal (k div 10) @ ''.'' @ decimal (k mod 10)"
      "\<bar>of_nat k / 10 - ?q2\<bar> \<le> 1 / 20"
    using format_1f_nonneg [of ?q2] by blast
  have "\<bar>of_nat k / 10 - 100 * q\<bar> \<le> 1 / 20 + (100 * q) / 2 ^ 51"
    using k(2) facts by linarith
  moreover have "\<bar>?q2 - 100 * q\<bar> \<le> (100 * q) / 2 ^ 51"
    using facts by blast
  ultimately show ?thesis
    using rp k(1) by (intro conjI exI [of _ k]) (simp_all add: q_def percent_float_def)
qed

lemma quotient_close:
  fixes a b A B :: rat
  assumes a: "A - A / 2 ^ 53 \<le> a" "a \<le> A + A / 2 ^ 53"
    and b: "B - B / 2 ^ 53 \<le> b" "b \<le> B + B / 2 ^ 53"
    and A: "0 \<le> A" and B: "0 < B"
  shows "A / B - 2 * (A / B) / 2 ^ 53 \<le> a / b" and "a / b \<le> A / B + 3 * (A / B) / 2 ^ 53"
proof -
  have bpos: "0 < b" using b(1) B by simp
  have lowB: "0 < B - B / 2 ^ 53" using B by simp
  have a0: "0 \<le> a" using a(1) A by simp
  have "a / b \<le> (A + A / 2 ^ 53) / (B - B / 2 ^ 53)"
    by (rule frac_le [OF _ a(2) lowB b(1)]) (use A in simp)
  also have "\<dots> = (A / B) * ((1 + 1 / 2 ^ 53) / (1 - 1 / 2 ^ 53))"
    using B by (simp add: field_simps)
  also have "\<dots> \<le> (A / B) * (1 + 3 / 2 ^ 53)"
    by (rule mult_left_mono) (use A B in simp_all)
  finally show "a / b \<le> A / B + 3 * (A / B) / 2 ^ 53"
    by (simp add: algebra_simps)
  have "(A / B) * (1 - 2 / 2 ^ 53) \<le> (A / B) * ((1 - 1 / 2 ^ 53) / (1 + 1 / 2 ^ 53))"
    by (rule mult_left_mono) (use A B in simp_all)
  also have "\<dots> = (A - A / 2 ^ 53) / (B + B / 2 ^ 53)"
    using B by (simp add: field_simps)
  also have "\<dots> \<le> a / b"
    by (rule frac_le [OF a0 a(1) bpos b(2)])
  finally show "A / B - 2 * (A / B) / 2 ^ 53 \<le> a / b"
    by (simp add: algebra_simps)
qed

lemma speed_chain:
  fixes c u :: rat
  assumes c: "1 \<le> c" "c < 2 ^ 1000" and u: "1 / 10 ^ 6 \<le> u" "u < 2 ^ 1000"
  shows "0 < round_to_double u \<and> \<not> overflows (round_to_double c) \<and>
         \<not> overflows (round_to_double (round_to_double c / round_to_double u)) \<and>
         \<bar>round_to_double (round_to_double c / round_to_double u) - c / u\<bar> \<le> (c / u) / 2 ^ 50"
proof -
  define cf where "cf = round_to_double c"
  define su where "su = round_to_double u"
  define w where "w = cf / su"
  define y where "y = c / u"
  define v where "v = round_to_double w"
  have "1 / 2 ^ 1022 \<le> c" using c by simp
  from round_to_double_close [OF this]
  have bc: "c - c / 2 ^ 53 \<le> cf" "cf \<le> c + c / 2 ^ 53"
    by (simp_all add: cf_def)
  have "1 / 2 ^ 1022 \<le> u" using u by simp
  from round_to_double_close [OF this]
  have bu: "u - u / 2 ^ 53 \<le> su" "su \<le> u + u / 2 ^ 53"
    by (simp_all add: su_def)
  have upos: "0 < u" using u by simp
  have c0: "0 \<le> c" using c by simp
  note bw = quotient_close [OF bc bu c0 upos, folded w_def y_def]
  have "1 / 2 ^ 1000 \<le> 1 / u"
    using u upos by (intro divide_left_mono) simp_all
  also have "\<dots> \<le> c / u"
    using c upos by (simp add: divide_right_mono)
  finally have ylow: "1 / 2 ^ 1000 \<le> y" by (simp add: y_def)
  have "c / u \<le> c / (1 / 10 ^ 6)"
    by (rule divide_left_mono [OF u(1)]) (use c0 upos in simp_all)
  then have yup: "y < 2 ^ 1020"
    using c by (simp add: y_def)
  have "1 / 2 ^ 1022 \<le> w"
    using bw(1) ylow by simp
  from round_to_double_close [OF this]
  have bv: "w - w / 2 ^ 53 \<le> v" "v \<le> w + w / 2 ^ 53"
    by (simp_all add: v_def)
  have "0 < su" using bu(1) upos by simp
  moreover have "0 \<le> cf" "cf < 2 ^ 1024"
    using bc c by simp_all
  moreover have "0 \<le> v" "v < 2 ^ 1024"
    using bv bw ylow yup by simp_all
  moreover have "\<bar>v - y\<bar> \<le> y / 2 ^ 50"
  proof (rule abs_leI)
    show "v - y \<le> y / 2 ^ 50"
      using bv bw ylow by simp
    show "- (v - y) \<le> y / 2 ^ 50"
      using bv bw ylow by simp
  qed
  ultimately show ?thesis
    by (simp add: overflows_def cf_def su_def w_def y_def v_def)
qed

lemma no_overflow_below:
  assumes "0 \<le> q" and "q < 2 ^ 1000"
  shows "\<not> overflows (round_to_double q)"
proof -
  have "\<bar>round_to_double q - q\<bar> \<le> q / 2 ^ 53 + 1 / 2 ^ 1075"
    using round_to_double_error [OF assms(1)] by (simp add: eps_def pow2_def)
  then have "round_to_double q < 2 ^ 1024"
    using assms by simp
  moreover have "0 \<le> round_to_double q"
    by (rule round_to_double_nonneg [OF assms(1)])
  ultimately show ?thesis
    by (simp add: overflows_def)
qed

lemma of_nat_below:
  fixes n :: nat
  assumes "n < 2 ^ 1000"
  shows "(of_nat n :: rat) < 2 ^ 1000"
  using assms by (metis of_nat_less_iff of_nat_numeral of_nat_power)

lemma render_progress_defined:
  fixes current total' :: nat
  assumes "0 < total'" and "current < 2 ^ 1000"
  shows "\<exists>p. render_progress current total' = Inr p"
proof -
  let ?q = "of_nat current / of_nat total' :: rat"
  have t1: "(1::rat) \<le> of_nat total'" using assms(1) by (simp add: Suc_leI)
  have "?q \<le> of_nat current / 1"
    by (rule divide_left_mono [OF t1]) (use assms(1) in simp_all)
  then have "?q < 2 ^ 1000"
    using of_nat_below [OF assms(2)] by simp
  then have "\<not> overflows (round_to_double ?q)"
    by (intro no_overflow_below) simp_all
  then show ?thesis
    using assms(1) by (simp add: render_progress_def int_truediv_def Let_def)
qed

lemma render_speed_defined:
  fixes current :: nat
  assumes "current < 2 ^ 1000"
  shows "\<exists>sp. render_speed env current us = Inr sp"
proof -
  have "\<not> overflows (round_to_double (of_nat current))"
    by (intro no_overflow_below of_nat_below [OF assms]) simp
  then show ?thesis
    by (simp add: render_speed_def int_to_float_def Let_def)
qed

lemma render_speed_guarded: "us \<le> 0 \<Longrightarrow> render_speed env current us = Inr []"
proof -
  assume "us \<le> 0"
  then have "of_int us / 1000000 \<le> (0::rat)"
    by (simp add: divide_le_0_iff)
  then have "total_seconds us \<le> 0"
    unfolding total_seconds_def by (rule round_to_double_nonpos)
  then show ?thesis
    by (simp add: render_speed_def)
qed

lemma render_progress_zero:
  "render_progress current 0 = Inl (Raised ZeroDivisionError ''division by zero'')"
  by (simp add: render_progress_def int_truediv_def)

lemma render_speed_accuracy:
  fixes current :: nat
  assumes cb: "current < 2 ^ 1000" and us: "0 < us" "us < 2 ^ 1000"
  shows "render_speed env current us =
           Inr (naturalsize env (PyFloat (Finite (speed_float current us))) @ ''/s'') \<and>
         \<bar>speed_float current us - of_nat current / (of_int us / 10 ^ 6)\<bar>
           \<le> (of_nat current / (of_int us / 10 ^ 6)) / 2 ^ 50"
proof -
  define c :: rat where "c = of_nat current"
  define u :: rat where "u = of_int us / 10 ^ 6"
  have cB: "c < 2 ^ 1000"
    unfolding c_def by (rule of_nat_below [OF cb])
  have "(1::rat) \<le> of_int us"
    using us(1) by linarith
  then have ulow: "1 / 10 ^ 6 \<le> u"
    by (simp add: u_def divide_right_mono)
  have "(of_int us :: rat) < 2 ^ 1000"
    using us(2) by (metis of_int_less_iff of_int_numeral of_int_power)
  then have uup: "u < 2 ^ 1000"
    by (simp add: u_def)
  have ts: "total_seconds us = round_to_double u"
    by (simp add: total_seconds_def u_def)
  have "1 / 2 ^ 1022 \<le> u" using ulow by simp
  from round_to_double_close(1) [OF this] ulow
  have spos: "0 < round_to_double u" by simp
  have facts: "\<not> overflows (round_to_double c) \<and>
      \<not> overflows (round_to_double (round_to_double c / round_to_double u)) \<and>
      \<bar>round_to_double (round_to_double c / round_to_double u) - c / u\<bar> \<le> (c / u) / 2 ^ 50"
  proof (cases "current = 0")
    case True
    then show ?thesis by (simp add: c_def overflows_def)
  next
    case False
    then have "1 \<le> c" by (simp add: c_def Suc_leI)
    from speed_chain [OF this cB ulow uup] show ?thesis by blast
  qed
  then have "render_speed env current us =
      Inr (naturalsize env (PyFloat (Finite (round_to_double (round_to_double c / round_to_double u)))) @ ''/s'')"
    using spos by (simp add: render_speed_def int_to_float_def Let_def float_div_def
        to_pyfloat_def ts c_def)
  moreover have "speed_float current us = round_to_double (round_to_double c / round_to_double u)"
    by (simp add: speed_float_def ts c_def)
  ultimately show ?thesis
    using facts unfolding c_def u_def by simp
qed

subsection \<open>The progress example\<close>

lemma render_size_defined:
  fixes total' :: nat
  assumes "total' < 2 ^ 1000"
  shows "render_size env total' = Inr (naturalsize env (PyInt (int total')))"
proof -
  have "\<not> overflows (round_to_double (of_nat total'))"
    by (intro no_overflow_below of_nat_below [OF assms]) simp
  then show ?thesis
    by (simp add: render_size_def int_to_float_def Let_def)
qed

lemma progress_text_composed:
  fixes total' :: nat
  assumes "render_progress current total' = Inr p"
    and "render_speed env current (now - start_time) = Inr sp"
    and "total' < 2 ^ 1000"
  shows "progress_text env now current total' start_time =
     Inr (emoji_inbox @ '' Downloading...'' @ [newline] @
          ''Progress: '' @ p @ ''%'' @ [newline] @
          ''Size: '' @ naturalsize env (PyInt (int total')) @ [newline] @
          ''Speed: '' @ sp)"
  using assms(1,2) by (simp add: progress_text_def render_size_defined [OF assms(3)])

lemma progress_text_error_class:
  assumes "progress_text env now current total' start_time = Inl e"
  shows "class_of e = OverflowError \<or> (class_of e = ZeroDivisionError \<and> total' = 0)"
  using assms
  by (auto simp: progress_text_def render_progress_def int_truediv_def render_speed_def
      int_to_float_def render_size_def Let_def split: sum.splits if_splits)

lemma two_seconds: "total_seconds 2000000 = 2"
  by code_simp

lemma float_512000: "int_to_float 512000 = Inr 512000"
  by code_simp

lemma quotient_256000: "float_div 512000 2 = Finite 256000"
  by code_simp

lemma sample_speed: "render_speed sample_env 512000 2000000 = Inr ''256.0 kB/s''"
  by (simp add: render_speed_def two_seconds float_512000 quotient_256000 sample_env_def
      sample_naturalsize_def)

lemma sample_size: "naturalsize sample_env (PyInt 1024000) = ''1.0 MB''"
  by (simp add: sample_env_def sample_naturalsize_def)

lemma fifty: "decimal (500 div 10) @ ''.'' @ decimal (500 mod 10) = ''50.0''"
  by code_simp

text \<open>Two progress reports at which the exact percentage is a tie of the first decimal.\<close>

lemma overflows_23: "\<not> overflows (round_to_double (23 / 80))"
  by code_simp

lemma overflows_49: "\<not> overflows (round_to_double (49 / 80))"
  by code_simp

lemma percent_23: "format_1f (float_mul (round_to_double (23 / 80)) 100) = ''28.7''"
  by code_simp

lemma percent_49: "format_1f (float_mul (round_to_double (49 / 80)) 100) = ''61.3''"
  by code_simp

subsection \<open>What the \<open>try\<close> block of the loop isolates\<close>

text \<open>
  A failure raised inside the \<open>try\<close> block is isolated: when the Bot API calls go
  through and the filename of every item can be derived, the loop ends without an
  exception, it starts a download for every item of the batch in order, it sends one
  notice per item (the failure notice for an item whose download raised, the completion
  notice otherwise) and it sends exactly the files whose download returned.
\<close>

lemma download_failure_is_isolated:
  assumes "bot_api_succeeds env" and "filenames_defined env msgs"
  shows "fst (download_loop env upd c msgs s) = None \<and>
         downloads (new_events s (snd (download_loop env upd c msgs s))) = msgs \<and>
         replies (new_events s (snd (download_loop env upd c msgs s))) =
           map (expected_notice env c) msgs \<and>
         documents (new_events s (snd (download_loop env upd c msgs s))) =
           List.map_filter (expected_document env c) msgs"
  using download_loop_events [OF assms, of upd c s] by simp

lemma download_failure_is_isolated_example:
  "fst (download_loop flaky_env (request ''go'') 0 batch empty_state) = None \<and>
   replies (new_events empty_state (snd (download_loop flaky_env (request ''go'') 0 batch empty_state))) =
     [emoji_check @ '' Saved: a.pdf'',
      emoji_cross @ '' Failed to download b.pdf: connection reset'',
      emoji_check @ '' Saved: c.pdf''] \<and>
   documents (new_events empty_state (snd (download_loop flaky_env (request ''go'') 0 batch empty_state))) =
     [(''downloads/1'', ''a.pdf''), (''downloads/3'', ''c.pdf'')]"
proof -
  have api: "bot_api_succeeds flaky_env"
    by (rule bot_api_succeeds_quiet) (simp add: flaky_env_def quiet_env_def)
  have names: "filenames_defined flaky_env batch"
    by (simp add: filenames_defined_def batch_def document_message_def get_filename_def)
  have notices: "map (expected_notice flaky_env 0) batch =
     [emoji_check @ '' Saved: a.pdf'',
      emoji_cross @ '' Failed to download b.pdf: connection reset'',
      emoji_check @ '' Saved: c.pdf'']"
    by (simp add: expected_notice_def filename_of_def get_filename_def batch_def
        document_message_def flaky_env_def transport_error_def)
  have d1: "decimal (Suc 0) = ''1''" and d3: "decimal 3 = ''3''"
    by code_simp+
  have docs: "List.map_filter (expected_document flaky_env 0) batch =
     [(''downloads/1'', ''a.pdf''), (''downloads/3'', ''c.pdf'')]"
    by (simp add: expected_document_def filename_of_def get_filename_def batch_def
        document_message_def flaky_env_def List.map_filter_simps d1 d3)
  show ?thesis
    using download_failure_is_isolated [OF api names, of "request ''go''" 0 empty_state]
    by (simp only: notices docs)
qed

text \<open>
  The filename of an item is derived before the \<open>try\<close> block: an exception of
  \<open>get_filename\<close> ends the loop at that item.
\<close>

lemma download_loop_filename_failure:
  assumes api: "bot_api_succeeds env"
    and names: "filenames_defined env pre"
    and bad: "get_filename (filename_stamp env m) (msg_media m) = Inl e"
  shows "fst (download_loop env upd c (pre @ m # post) s) = Some e \<and>
         adds (\<lambda>ev. True) s (snd (download_loop env upd c (pre @ m # post) s)) \<and>
         replies (new_events s (snd (download_loop env upd c (pre @ m # post) s))) =
           map (expected_notice env c) pre \<and>
         documents (new_events s (snd (download_loop env upd c (pre @ m # post) s))) =
           List.map_filter (expected_document env c) pre \<and>
         downloads (new_events s (snd (download_loop env upd c (pre @ m # post) s))) = pre"
  using names
proof (induction pre arbitrary: s)
  case Nil
  have "process_item env upd c m s = (Some e, s)"
    by (simp add: process_item_def bad)
  then show ?case
    by (simp add: and_then_def adds_refl new_events_def replies_def documents_def
        downloads_def List.map_filter_simps)
next
  case (Cons x pre)
  from Cons.prems obtain filename
    where name: "get_filename (filename_stamp env x) (msg_media x) = Inr filename"
      and rest: "filenames_defined env pre"
    by (auto simp: filenames_defined_def split: sum.splits)
  let ?s1 = "snd (process_item env upd c x s)"
  note item = process_item_events [OF api name, of upd c s]
  note loop = Cons.IH [OF rest, of ?s1]
  have step: "download_loop env upd c ((x # pre) @ m # post) s =
      download_loop env upd c (pre @ m # post) ?s1"
    using item by (cases "process_item env upd c x s") (simp add: and_then_def)
  have ne: "new_events s (snd (download_loop env upd c (pre @ m # post) ?s1)) =
      new_events s ?s1 @ new_events ?s1 (snd (download_loop env upd c (pre @ m # post) ?s1))"
    using item loop by (blast intro: new_events_trans)
  show ?case
    unfolding step ne
    using item loop
    by (auto simp: replies_def documents_def downloads_def map_filter_append
        List.map_filter_simps intro: adds_trans split: option.splits)
qed

section \<open>Claims\<close>

text \<open>
  C1, against the code.  The loop isolates a failure that is raised inside its \<open>try\<close>
  block, but it derives the filename of an item before that block, and \<open>get_filename\<close>
  raises \<open>AttributeError\<close> on a document message whose document is \<open>None\<close>.  For every
  batch in which the filename of one item cannot be derived, the items before it being
  processed without a failure of the Bot API: the loop ends at that item with the
  exception of \<open>get_filename\<close>, which leaves the handler; the downloads started, the
  notices and the files sent are those of the items before it; the item itself gets no
  failure notice, and no item after it is processed.
\<close>

theorem filename_failure_aborts_the_range:
  assumes "bot_api_succeeds env" and "filenames_defined env pre"
    and "get_filename (filename_stamp env m) (msg_media m) = Inl e"
  shows "fst (download_loop env upd c (pre @ m # post) s) = Some e \<and>
         downloads (new_events s (snd (download_loop env upd c (pre @ m # post) s))) = pre \<and>
         replies (new_events s (snd (download_loop env upd c (pre @ m # post) s))) =
           map (expected_notice env c) pre \<and>
         documents (new_events s (snd (download_loop env upd c (pre @ m # post) s))) =
           List.map_filter (expected_document env c) pre"
  using download_loop_filename_failure [OF assms, of upd c post s] by simp

theorem filename_failure_aborts_the_range_witness:
  "broken_batch = [document_message 1 ''a.pdf''] @ expired_document 2 # [document_message 3 ''c.pdf''] \<and>
   fst (download_loop quiet_env (request ''go'') 0 broken_batch empty_state) =
     Some (Raised AttributeError
             (CHR 0x27 # ''NoneType'' @ CHR 0x27 # '' object has no attribute '' @
              CHR 0x27 # ''attributes'' @ [CHR 0x27])) \<and>
   downloads (new_events empty_state
      (snd (download_loop quiet_env (request ''go'') 0 broken_batch empty_state))) =
     [document_message 1 ''a.pdf''] \<and>
   replies (new_events empty_state
      (snd (download_loop quiet_env (request ''go'') 0 broken_batch empty_state))) =
     [emoji_check @ '' Saved: a.pdf''] \<and>
   documents (new_events empty_state
      (snd (download_loop quiet_env (request ''go'') 0 broken_batch empty_state))) =
     [(''downloads/file'', ''a.pdf'')]"
proof -
  have api: "bot_api_succeeds quiet_env"
    by (rule bot_api_succeeds_quiet) (simp add: quiet_env_def)
  have names: "filenames_defined quiet_env [document_message 1 ''a.pdf'']"
    by (simp add: filenames_defined_def document_message_def get_filename_def)
  have bad: "get_filename (filename_stamp quiet_env (expired_document 2))
        (msg_media (expired_document 2)) =
      Inl (Raised AttributeError
             (CHR 0x27 # ''NoneType'' @ CHR 0x27 # '' object has no attribute '' @
              CHR 0x27 # ''attributes'' @ [CHR 0x27]))"
    by (simp add: expired_document_def get_filename_def)
  have parts: "broken_batch =
      [document_message 1 ''a.pdf''] @ expired_document 2 # [document_message 3 ''c.pdf'']"
    by (simp add: broken_batch_def)
  have notices: "map (expected_notice quiet_env 0) [document_message 1 ''a.pdf''] =
      [emoji_check @ '' Saved: a.pdf'']"
    by (simp add: expected_notice_def filename_of_def get_filename_def document_message_def
        quiet_env_def)
  have docs: "List.map_filter (expected_document quiet_env 0) [document_message 1 ''a.pdf''] =
      [(''downloads/file'', ''a.pdf'')]"
    by (simp add: expected_document_def filename_of_def get_filename_def document_message_def
        quiet_env_def List.map_filter_simps)
  note th = filename_failure_aborts_the_range
    [OF api names bad, of "request ''go''" 0 "[document_message 3 ''c.pdf'']" empty_state,
     folded parts, unfolded notices docs]
  from th parts show ?thesis
    by (simp only: simp_thms)
qed




text \<open>
  C3.  The messages selected for download are to be the media-bearing messages whose
  id lies in the closed interval from the start to the end.  The handler passes the two
  ids as \<open>min_id\<close> and \<open>max_id\<close>, which Telethon excludes: in a chat whose messages 10,
  11 and 12 all carry a document, the links to 10 and 12 select message 11 alone.
\<close>

theorem range_endpoints_are_skipped:
  "document_message 10 ''a.pdf'' \<in> set (chat_history 1) \<and>
   document_message 12 ''c.pdf'' \<in> set (chat_history 1) \<and>
   has_media (document_message 10 ''a.pdf'') \<and> has_media (document_message 12 ''c.pdf'') \<and>
   parse_tg_link ''https://t.me/c/1/10'' = (Some 1, Some 10) \<and>
   parse_tg_link ''https://t.me/c/1/12'' = (Some 1, Some 12) \<and>
   downloads (new_events logged_in_state
      (snd (handle_message telethon_env (request endpoints_text) logged_in_state))) =
     [document_message 11 ''b.pdf'']"
proof -
  let ?enumerated = "[document_message 11 ''b.pdf'']"
  have hm: "handle_message telethon_env (request endpoints_text) logged_in_state =
      link_request telethon_env (request endpoints_text) logged_in_state"
    by (rule handle_message_link) (simp_all add: endpoints_prefix)
  have lines: "split newline (strip (message_text (request endpoints_text))) =
      [''https://t.me/c/1/10'', ''https://t.me/c/1/12'']"
    by (simp add: endpoints_lines)
  have live: "ACTIVE_CLIENTS logged_in_state (effective_user_id (request endpoints_text)) = Some 0"
    by simp
  have enum: "iter_messages telethon_env 0 (fst (parse_tg_link ''https://t.me/c/1/10''))
      (snd (parse_tg_link ''https://t.me/c/1/10'')) (snd (parse_tg_link ''https://t.me/c/1/12'')) =
      Inr ?enumerated"
    by (simp add: parse_1_10 parse_1_12 telethon_env_def telethon_client_def
        telethon_iter_messages_def chat_history_def document_message_def)
  have names: "filenames_defined telethon_env (filter has_media ?enumerated)"
    using document_names [of telethon_env "[(11, ''b.pdf'')]"] by simp
  have media: "filter has_media ?enumerated = ?enumerated"
    by (simp add: has_media_def document_message_def)
  note lr = link_request_downloads [OF lines live enum _ names, unfolded media]
  have "downloads (new_events logged_in_state
      (snd (link_request telethon_env (request endpoints_text) logged_in_state))) = ?enumerated"
    using lr by simp
  then show ?thesis
    by (simp add: hm parse_1_10 parse_1_12 chat_history_def has_media_def document_message_def)
qed

text \<open>
  C4.  Every handler is to do nothing for a user outside the allow-list.  \<open>start\<close>,
  \<open>login\<close> and \<open>handle_message\<close> test the sender (lemmas \<open>start_unlisted\<close>,
  \<open>login_unlisted\<close>, \<open>handle_message_unlisted\<close>); \<open>logout\<close> does not: for user 999, who
  is not on the list, it deletes the persisted record and replies, and it disconnects
  and removes a live connection when there is one.
\<close>

theorem logout_acts_for_unlisted_user:
  "effective_user_id stranger_logout \<notin> set (ADMINS quiet_env) \<and>
   new_events empty_state (snd (logout quiet_env stranger_logout empty_state)) =
     [(DeleteOne 999, None), (ReplyText 999 (emoji_lock @ '' Session terminated.''), None)] \<and>
   new_events restored_state (snd (logout quiet_env stranger_logout restored_state)) =
     [(Disconnect 0, None), (DelActiveClient 999, None), (DeleteOne 999, None),
      (ReplyText 999 (emoji_lock @ '' Session terminated.''), None)] \<and>
   ACTIVE_CLIENTS (snd (logout quiet_env stranger_logout restored_state)) 999 = None \<and>
   sessions (snd (logout quiet_env stranger_logout restored_state)) 999 = None"
  by (simp add: logout_def quiet_env_def empty_state_def restored_state_def stranger_logout_def
      new_events_def and_then_def perform_def log_event_def store_def)

text \<open>
  C5, as the code has it.  When the sign-in with the submitted code raises, the reply
  with the platform's error message is sent, and the three tables are left as they
  were: the user's login state is still the pending dictionary (phone, code handle and
  connection), nothing is persisted and no connection is registered.
\<close>

theorem sign_in_failure_keeps_login_state:
  assumes "effective_user_id upd \<in> set (ADMINS env)"
    and "get_user_state s (effective_user_id upd) = AWAITING_CODE phone sent_code client"
    and "external env (SignIn client phone (message_text upd)) = Some e"
  shows "USER_STATES (snd (handle_message env upd s)) = USER_STATES s \<and>
         ACTIVE_CLIENTS (snd (handle_message env upd s)) = ACTIVE_CLIENTS s \<and>
         sessions (snd (handle_message env upd s)) = sessions s \<and>
         new_events s (snd (handle_message env upd s)) =
           [(SignIn client phone (message_text upd), Some e),
            (ReplyText (effective_user_id upd) (emoji_cross @ '' Error: '' @ str_of e),
             external env (ReplyText (effective_user_id upd) (emoji_cross @ '' Error: '' @ str_of e)))]"
proof -
  let ?reply = "ReplyText (effective_user_id upd) (emoji_cross @ '' Error: '' @ str_of e)"
  have step: "handle_message env upd s =
      perform env ?reply (log_event (SignIn client phone (message_text upd)) (Some e) s)"
    using assms by (simp add: handle_message_def login_code_step_def and_then_def perform_def Let_def)
  show ?thesis
    unfolding step
    by (cases "external env ?reply") (simp_all add: perform_def log_event_def new_events_def)
qed

theorem sign_in_failure_keeps_login_state_witness:
  "get_user_state (snd (handle_message rejecting_env otp_update code_pending_state)) 1 =
     AWAITING_CODE ''+1234567890'' ''hash'' 0 \<and>
   replies (new_events code_pending_state
      (snd (handle_message rejecting_env otp_update code_pending_state))) =
     [emoji_cross @ '' Error: The phone code entered was invalid'']"
proof -
  have a: "effective_user_id otp_update \<in> set (ADMINS rejecting_env)"
    by (simp add: otp_update_def rejecting_env_def quiet_env_def)
  have b: "get_user_state code_pending_state (effective_user_id otp_update) =
      AWAITING_CODE ''+1234567890'' ''hash'' 0"
    by (simp add: get_user_state_def code_pending_state_def empty_state_def otp_update_def)
  have c: "external rejecting_env (SignIn 0 ''+1234567890'' (message_text otp_update)) =
      Some invalid_code"
    by (simp add: rejecting_env_def)
  have d: "external rejecting_env (ReplyText u t) = None" for u t
    by (simp add: rejecting_env_def quiet_env_def)
  note th = sign_in_failure_keeps_login_state [OF a b c]
  from th have us: "USER_STATES (snd (handle_message rejecting_env otp_update code_pending_state)) =
      USER_STATES code_pending_state"
    by blast
  from th have ne: "new_events code_pending_state
        (snd (handle_message rejecting_env otp_update code_pending_state)) =
      [(SignIn 0 ''+1234567890'' (message_text otp_update), Some invalid_code),
       (ReplyText (effective_user_id otp_update) (emoji_cross @ '' Error: '' @ str_of invalid_code),
        None)]"
    by (simp only: d)
  have "get_user_state (snd (handle_message rejecting_env otp_update code_pending_state)) 1 =
      get_user_state code_pending_state 1"
    by (simp only: get_user_state_def us)
  moreover have "get_user_state code_pending_state 1 = AWAITING_CODE ''+1234567890'' ''hash'' 0"
    using b by (simp add: otp_update_def)
  moreover have "replies (new_events code_pending_state
      (snd (handle_message rejecting_env otp_update code_pending_state))) =
     [emoji_cross @ '' Error: The phone code entered was invalid'']"
    unfolding ne by (simp add: replies_def List.map_filter_simps invalid_code_def)
  ultimately show ?thesis by simp
qed

text \<open>Against C5 as stated: the login state after a rejected code is not \<open>None\<close>.\<close>

theorem sign_in_failure_reset_counterexample:
  "effective_user_id otp_update \<in> set (ADMINS rejecting_env) \<and>
   get_user_state code_pending_state 1 = AWAITING_CODE ''+1234567890'' ''hash'' 0 \<and>
   external rejecting_env (SignIn 0 ''+1234567890'' ''12345'') = Some invalid_code \<and>
   get_user_state (snd (handle_message rejecting_env otp_update code_pending_state)) 1 \<noteq> PyNone"
  by (simp add: handle_message_def login_code_step_def and_then_def perform_def log_event_def Let_def
      get_user_state_def code_pending_state_def empty_state_def otp_update_def
      rejecting_env_def quiet_env_def)

text \<open>
  C6, as the code has it.  When opening the connection or requesting the code raises,
  the exception leaves the handler, and the three tables are left as they were: the
  user's login state is still \<open>AWAITING_PHONE\<close>.
\<close>

theorem code_request_failure_keeps_login_state:
  assumes "effective_user_id upd \<in> set (ADMINS env)"
    and "get_user_state s (effective_user_id upd) = AWAITING_PHONE"
    and "external env (Connect (clients_created s)) = Some e \<or>
         external env (Connect (clients_created s)) = None \<and>
         send_code_request env (clients_created s) (message_text upd) = Inl e"
  shows "fst (handle_message env upd s) = Some e \<and>
         USER_STATES (snd (handle_message env upd s)) = USER_STATES s \<and>
         get_user_state (snd (handle_message env upd s)) (effective_user_id upd) = AWAITING_PHONE \<and>
         ACTIVE_CLIENTS (snd (handle_message env upd s)) = ACTIVE_CLIENTS s \<and>
         sessions (snd (handle_message env upd s)) = sessions s"
proof -
  have hm: "handle_message env upd s = login_phone_step env upd s"
    using assms(1,2) by (simp add: handle_message_def)
  from assms(3) have "fst (login_phone_step env upd s) = Some e \<and>
      USER_STATES (snd (login_phone_step env upd s)) = USER_STATES s \<and>
      ACTIVE_CLIENTS (snd (login_phone_step env upd s)) = ACTIVE_CLIENTS s \<and>
      sessions (snd (login_phone_step env upd s)) = sessions s"
    by (auto simp: login_phone_step_def Let_def and_then_def perform_def log_event_def)
  then show ?thesis
    using assms(2) by (simp add: hm get_user_state_def)
qed

theorem code_request_failure_keeps_login_state_witness:
  "fst (handle_message unreachable_env (request ''+1234567890'') phone_pending_state) =
     Some unreachable \<and>
   get_user_state (snd (handle_message unreachable_env (request ''+1234567890'') phone_pending_state)) 1 =
     AWAITING_PHONE"
proof -
  have a: "effective_user_id (request ''+1234567890'') \<in> set (ADMINS unreachable_env)"
    by (simp add: request_def unreachable_env_def quiet_env_def)
  have b: "get_user_state phone_pending_state (effective_user_id (request ''+1234567890'')) =
      AWAITING_PHONE"
    by (simp add: get_user_state_def phone_pending_state_def empty_state_def request_def)
  have c: "external unreachable_env (Connect (clients_created phone_pending_state)) = Some unreachable \<or>
      external unreachable_env (Connect (clients_created phone_pending_state)) = None \<and>
      send_code_request unreachable_env (clients_created phone_pending_state)
        (message_text (request ''+1234567890'')) = Inl unreachable"
    by (simp add: unreachable_env_def)
  have d: "effective_user_id (request ''+1234567890'') = 1"
    by (simp add: request_def)
  show ?thesis
    using code_request_failure_keeps_login_state [OF a b c] by (simp only: d)
qed

text \<open>
  Against C6 as stated: with an unreachable platform the handler fails with the
  \<open>ConnectionError\<close>, the login state is not \<open>None\<close> and nothing is replied.
\<close>

theorem unreachable_platform_counterexample:
  "get_user_state phone_pending_state 1 = AWAITING_PHONE \<and>
   external unreachable_env (Connect 0) = Some unreachable \<and>
   class_of unreachable = ConnectionError \<and>
   fst (handle_message unreachable_env (request ''+1234567890'') phone_pending_state) =
     Some unreachable \<and>
   get_user_state (snd (handle_message unreachable_env (request ''+1234567890'') phone_pending_state)) 1
     \<noteq> PyNone \<and>
   replies (new_events phone_pending_state
      (snd (handle_message unreachable_env (request ''+1234567890'') phone_pending_state))) = []"
  by (simp add: handle_message_def login_phone_step_def Let_def and_then_def perform_def
      log_event_def get_user_state_def phone_pending_state_def empty_state_def request_def
      unreachable_env_def quiet_env_def unreachable_def new_events_def replies_def
      List.map_filter_simps)

text \<open>
  C7, as the code has it.  A request that starts with the link prefix is turned down,
  with the reply asking for exactly two links and without any enumeration or download,
  exactly when its stripped text is not two lines.  Two lines are not checked further:
  they need not match the link pattern nor name the same chat.  For a text within the
  length of a Telegram message: without a live connection the reply is that the
  operator is not logged in, and with a live connection the enumeration is started;
  for a text of ASCII characters, on the chat and message id parsed from the first
  line and the message id parsed from the second, whatever chat the second line names.
  (The length is the hypothesis under which \<open>int()\<close> does not raise, ASCII the one
  under which \<open>parse_tg_link\<close> is the function of the source.)
\<close>

theorem link_request_checks_the_line_count_only:
  assumes "effective_user_id upd \<in> set (ADMINS env)"
    and "get_user_state s (effective_user_id upd) = PyNone"
    and "startswith (message_text upd) link_prefix"
  shows "(length (split newline (strip (message_text upd))) \<noteq> 2 \<longrightarrow>
            handle_message env upd s =
              perform env (ReplyText (effective_user_id upd)
                (emoji_cross @ '' Send exactly 2 message links (start and end).'')) s \<and>
            enumerations (new_events s (snd (handle_message env upd s))) = [] \<and>
            downloads (new_events s (snd (handle_message env upd s))) = []) \<and>
         (length (split newline (strip (message_text upd))) = 2 \<and>
          length (message_text upd) \<le> telegram_text_limit \<and>
          ACTIVE_CLIENTS s (effective_user_id upd) = None \<longrightarrow>
            handle_message env upd s =
              perform env (ReplyText (effective_user_id upd)
                (emoji_cross @ '' Not logged in! Use /login first.'')) s) \<and>
         (split newline (strip (message_text upd)) = [l1, l2] \<and>
          length (message_text upd) \<le> telegram_text_limit \<and>
          ACTIVE_CLIENTS s (effective_user_id upd) = Some c \<longrightarrow>
            length (enumerations (new_events s (snd (handle_message env upd s)))) = 1 \<and>
            (ascii_text (message_text upd) \<longrightarrow>
               enumerations (new_events s (snd (handle_message env upd s))) =
                 [(fst (parse_tg_link l1), snd (parse_tg_link l1), snd (parse_tg_link l2))]))"
proof -
  have hm: "handle_message env upd s = link_request env upd s"
    by (rule handle_message_link [OF assms])
  have "link_request env upd s =
      perform env (ReplyText (effective_user_id upd)
        (emoji_cross @ '' Not logged in! Use /login first.'')) s"
    if "length (split newline (strip (message_text upd))) = 2"
      and "ACTIVE_CLIENTS s (effective_user_id upd) = None"
    using that by (simp add: link_request_def Let_def)
  then show ?thesis
    unfolding hm
    using link_request_enumerates [of upd l1 l2 s c env]
    by (auto simp: link_request_rejected new_events_def enumerations_def downloads_def)
qed

theorem link_request_checks_the_line_count_only_witness:
  "ascii_text two_chats_text \<and> length two_chats_text \<le> telegram_text_limit \<and>
   handle_message quiet_env (request ''https://t.me/c/1/10'') logged_in_state =
     perform quiet_env
       (ReplyText 1 (emoji_cross @ '' Send exactly 2 message links (start and end).''))
       logged_in_state \<and>
   handle_message quiet_env (request two_chats_text) empty_state =
     perform quiet_env (ReplyText 1 (emoji_cross @ '' Not logged in! Use /login first.''))
       empty_state \<and>
   enumerations (new_events logged_in_state
      (snd (handle_message quiet_env (request two_chats_text) logged_in_state))) =
     [(Some 1, Some 10, Some 20)]"
proof -
  have one_line: "split newline (strip ''https://t.me/c/1/10'') = [''https://t.me/c/1/10'']"
    by code_simp
  have one_prefix: "startswith ''https://t.me/c/1/10'' link_prefix"
    by code_simp
  have ascii: "ascii_text two_chats_text"
    by (simp add: ascii_text_def two_chats_text_def newline_def)
  have short: "length two_chats_text \<le> telegram_text_limit"
    by (simp add: telegram_text_limit_def two_chats_text_def)
  have operator: "effective_user_id (request t) \<in> set (ADMINS quiet_env)" for t
    by (simp add: request_def quiet_env_def)
  have idle: "get_user_state empty_state (effective_user_id (request t)) = PyNone"
    and logged_in: "get_user_state logged_in_state (effective_user_id (request t)) = PyNone" for t
    by (simp_all add: request_def get_user_state_def logged_in_state_def empty_state_def)
  have sent: "message_text (request t) = t" and user: "effective_user_id (request t) = 1" for t
    by (simp_all add: request_def)
  have p1: "startswith (message_text (request ''https://t.me/c/1/10'')) link_prefix"
    and p2: "startswith (message_text (request two_chats_text)) link_prefix"
    using one_prefix two_chats_prefix by (simp_all only: sent)
  have none: "ACTIVE_CLIENTS empty_state 1 = None" and live: "ACTIVE_CLIENTS logged_in_state 1 = Some 0"
    by (simp_all add: logged_in_state_def empty_state_def)
  note th1 = link_request_checks_the_line_count_only
    [OF operator logged_in p1, unfolded sent user one_line]
  note th2 = link_request_checks_the_line_count_only
    [OF operator idle p2, unfolded sent user two_chats_lines]
  note th3 = link_request_checks_the_line_count_only
    [OF operator logged_in p2, unfolded sent user two_chats_lines,
     of "''https://t.me/c/1/10''" "''https://t.me/c/2/20''" 0, unfolded parse_1_10 parse_2_20]
  from th1 have first: "handle_message quiet_env (request ''https://t.me/c/1/10'') logged_in_state =
     perform quiet_env
       (ReplyText 1 (emoji_cross @ '' Send exactly 2 message links (start and end).''))
       logged_in_state"
    by simp
  from th2 short none have second: "handle_message quiet_env (request two_chats_text) empty_state =
     perform quiet_env (ReplyText 1 (emoji_cross @ '' Not logged in! Use /login first.''))
       empty_state"
    by simp
  from th3 short ascii live have third: "enumerations (new_events logged_in_state
      (snd (handle_message quiet_env (request two_chats_text) logged_in_state))) =
     [(Some 1, Some 10, Some 20)]"
    by simp
  from first second third ascii short show ?thesis by blast
qed

text \<open>
  Against C7 as stated: two links into different chats are accepted, and the
  enumeration is started.
\<close>

theorem different_chats_accepted_counterexample:
  "fst (parse_tg_link ''https://t.me/c/1/10'') \<noteq> fst (parse_tg_link ''https://t.me/c/2/20'') \<and>
   split newline (strip two_chats_text) = [''https://t.me/c/1/10'', ''https://t.me/c/2/20''] \<and>
   new_events logged_in_state
      (snd (handle_message quiet_env (request two_chats_text) logged_in_state)) =
     [(IterMessages 0 (Some 1) (Some 10) (Some 20), None)]"
proof -
  have hm: "handle_message quiet_env (request two_chats_text) logged_in_state =
      link_request quiet_env (request two_chats_text) logged_in_state"
    by (rule handle_message_link)
      (simp_all add: request_def quiet_env_def get_user_state_def logged_in_state_def
        empty_state_def two_chats_prefix)
  have "link_request quiet_env (request two_chats_text) logged_in_state =
      (None, log_event (IterMessages 0 (Some 1) (Some 10) (Some 20)) None logged_in_state)"
    by (simp add: link_request_def request_def two_chats_lines parse_1_10 parse_2_20
        logged_in_state_def empty_state_def quiet_env_def telethon_client_def
        telethon_iter_messages_def)
  then show ?thesis
    by (simp add: hm two_chats_lines parse_1_10 parse_2_20 new_events_def)
qed

text \<open>
  C8.  In the code step of the login the credential is upserted before the connection
  is registered, and at no observable point is the pending connection live for the user
  without its credential persisted.  For every outcome of the external calls: the
  property holds of the tables at every observable point of the handler, provided it
  holds before; the tables the handler returns are those of the last point; whenever
  the trace registers the connection, the successful upsert of its credential comes
  earlier in the trace; and when the sign-in, the upsert and the reply go through, the
  trace is sign-in, upsert, registration, reply, reset of the login state.
\<close>

theorem credential_persisted_before_connection_is_live:
  assumes "effective_user_id upd \<in> set (ADMINS env)"
    and "get_user_state s (effective_user_id upd) = AWAITING_CODE phone sent_code client"
    and "ACTIVE_CLIENTS s (effective_user_id upd) = Some client \<longrightarrow>
         sessions s (effective_user_id upd) = Some (session_save env client)"
  shows "(\<forall>t \<in> set (observable_points (new_events s (snd (handle_message env upd s))) s).
            ACTIVE_CLIENTS t (effective_user_id upd) = Some client \<longrightarrow>
            sessions t (effective_user_id upd) = Some (session_save env client)) \<and>
         tables (snd (handle_message env upd s)) =
           tables (last (observable_points (new_events s (snd (handle_message env upd s))) s)) \<and>
         ((SetActiveClient (effective_user_id upd) client, None)
            \<in> set (new_events s (snd (handle_message env upd s))) \<longrightarrow>
          (UpdateOne (effective_user_id upd) (session_save env client), None)
            \<in> set (takeWhile (\<lambda>ev. ev \<noteq> (SetActiveClient (effective_user_id upd) client, None))
                     (new_events s (snd (handle_message env upd s))))) \<and>
         (external env (SignIn client phone (message_text upd)) = None \<and>
          external env (UpdateOne (effective_user_id upd) (session_save env client)) = None \<and>
          external env (ReplyText (effective_user_id upd) (emoji_check @ '' Login successful!'')) = None \<longrightarrow>
            new_events s (snd (handle_message env upd s)) =
              [(SignIn client phone (message_text upd), None),
               (UpdateOne (effective_user_id upd) (session_save env client), None),
               (SetActiveClient (effective_user_id upd) client, None),
               (ReplyText (effective_user_id upd) (emoji_check @ '' Login successful!''), None),
               (SetUserState (effective_user_id upd) PyNone, None)])"
proof -
  have hm: "handle_message env upd s = login_code_step env upd phone client s"
    using assms(1,2) by (simp add: handle_message_def)
  have success: "external env (SignIn client phone (message_text upd)) = None \<and>
          external env (UpdateOne (effective_user_id upd) (session_save env client)) = None \<and>
          external env (ReplyText (effective_user_id upd) (emoji_check @ '' Login successful!'')) = None \<longrightarrow>
            new_events s (snd (login_code_step env upd phone client s)) =
              [(SignIn client phone (message_text upd), None),
               (UpdateOne (effective_user_id upd) (session_save env client), None),
               (SetActiveClient (effective_user_id upd) client, None),
               (ReplyText (effective_user_id upd) (emoji_check @ '' Login successful!''), None),
               (SetUserState (effective_user_id upd) PyNone, None)]"
    unfolding login_code_step_events by simp
  show ?thesis
    unfolding hm
    using login_code_step_points [OF assms(3)] login_code_step_order success
      login_code_step_tables
    by blast
qed

theorem credential_persisted_before_connection_is_live_witness:
  "new_events code_pending_state (snd (handle_message quiet_env otp_update code_pending_state)) =
     [(SignIn 0 ''+1234567890'' ''12345'', None),
      (UpdateOne 1 ''credential'', None),
      (SetActiveClient 1 0, None),
      (ReplyText 1 (emoji_check @ '' Login successful!''), None),
      (SetUserState 1 PyNone, None)] \<and>
   map (\<lambda>t. (sessions t 1, ACTIVE_CLIENTS t 1))
     (observable_points
        (new_events code_pending_state (snd (handle_message quiet_env otp_update code_pending_state)))
        code_pending_state) =
     [(None, None), (None, None), (Some ''credential'', None), (Some ''credential'', Some 0),
      (Some ''credential'', Some 0), (Some ''credential'', Some 0)]"
proof -
  have a: "effective_user_id otp_update \<in> set (ADMINS quiet_env)"
    by (simp add: otp_update_def)
  have b: "get_user_state code_pending_state (effective_user_id otp_update) =
      AWAITING_CODE ''+1234567890'' ''hash'' 0"
    by (simp add: get_user_state_def code_pending_state_def empty_state_def otp_update_def)
  have c: "ACTIVE_CLIENTS code_pending_state (effective_user_id otp_update) = Some 0 \<longrightarrow>
      sessions code_pending_state (effective_user_id otp_update) = Some (session_save quiet_env 0)"
    by (simp add: code_pending_state_def empty_state_def)
  have d: "external quiet_env a = None" for a
    by (simp add: quiet_env_def)
  have e: "effective_user_id otp_update = 1" "message_text otp_update = ''12345''"
    "session_save quiet_env 0 = ''credential''"
    by (simp_all add: otp_update_def quiet_env_def)
  note th = credential_persisted_before_connection_is_live [OF a b c, unfolded d e]
  from th have ne: "new_events code_pending_state
      (snd (handle_message quiet_env otp_update code_pending_state)) =
     [(SignIn 0 ''+1234567890'' ''12345'', None),
      (UpdateOne 1 ''credential'', None),
      (SetActiveClient 1 0, None),
      (ReplyText 1 (emoji_check @ '' Login successful!''), None),
      (SetUserState 1 PyNone, None)]"
    by blast
  show ?thesis
    unfolding ne by (simp add: code_pending_state_def empty_state_def)
qed

text \<open>
  C9, as the code has it.  For a progress callback with a positive total (byte counts
  and elapsed microseconds below \<open>2\<^sup>1\<^sup>0\<^sup>0\<^sup>0\<close>): the rendered percentage is the float that
  \<open>current / total * 100\<close> evaluates to, rendered to one decimal place; that float is
  within the rounding error of the two floating-point operations of the exact
  percentage, so the rendering is a decimal numeral with one fractional digit within
  half a unit of that digit, and that rounding error, of the exact percentage.  For a
  positive elapsed time the rendered rate is \<open>naturalsize\<close> of the float that
  \<open>current / elapsed.total_seconds()\<close> evaluates to, which is within the rounding error
  of three floating-point operations of \<open>current / elapsed\<close> seconds, followed by \<open>/s\<close>;
  for an elapsed time that is not positive it is the empty string; and the text of the
  progress message is made of these two renderings.  The witness is the example of the
  specification: 512000 of 1024000 bytes after two seconds render as \<open>50.0%\<close> and as
  the rendering of 256000 bytes per second.
\<close>

theorem progress_rendering:
  fixes current total' :: nat
  assumes "0 < total'" and "current < 2 ^ 1000" and "total' < 2 ^ 1000"
  shows "(\<exists>k. render_progress current total' =
                Inr (decimal (k div 10) @ ''.'' @ decimal (k mod 10)) \<and>
              \<bar>of_nat k / 10 - 100 * of_nat current / (of_nat total' :: rat)\<bar>
                \<le> 1 / 20 + (100 * of_nat current / of_nat total') / 2 ^ 51) \<and>
         render_progress current total' =
           Inr (format_1f (Finite (percent_float current total'))) \<and>
         \<bar>percent_float current total' - 100 * of_nat current / (of_nat total' :: rat)\<bar>
           \<le> (100 * of_nat current / of_nat total') / 2 ^ 51 \<and>
         (0 < us \<and> us < 2 ^ 1000 \<longrightarrow>
            render_speed env current us =
              Inr (naturalsize env (PyFloat (Finite (speed_float current us))) @ ''/s'') \<and>
            \<bar>speed_float current us - of_nat current / (of_int us / 10 ^ 6)\<bar>
              \<le> (of_nat current / (of_int us / 10 ^ 6)) / 2 ^ 50) \<and>
         (us \<le> 0 \<longrightarrow> render_speed env current us = Inr []) \<and>
         (\<exists>p sp. render_progress current total' = Inr p \<and>
                  render_speed env current (now - start_time) = Inr sp \<and>
                  progress_text env now current total' start_time =
                    Inr (emoji_inbox @ '' Downloading...'' @ [newline] @
                         ''Progress: '' @ p @ ''%'' @ [newline] @
                         ''Size: '' @ naturalsize env (PyInt (int total')) @ [newline] @
                         ''Speed: '' @ sp))"
proof -
  obtain p where p: "render_progress current total' = Inr p"
    using render_progress_defined [OF assms(1,2)] by blast
  obtain sp where sp: "render_speed env current (now - start_time) = Inr sp"
    using render_speed_defined [OF assms(2)] by blast
  show ?thesis
    using render_progress_accuracy [OF assms] render_speed_accuracy [OF assms(2), of us env]
      render_speed_guarded [of us env current] p sp progress_text_composed [OF p sp assms(3)]
    by blast
qed

theorem progress_rendering_witness:
  "render_progress 512000 1024000 = Inr ''50.0'' \<and>
   render_speed sample_env 512000 (2000000 - 0) = Inr ''256.0 kB/s'' \<and>
   render_speed sample_env 512000 0 = Inr [] \<and>
   progress_text sample_env 2000000 512000 1024000 0 =
     Inr (emoji_inbox @ '' Downloading...'' @ [newline] @
          ''Progress: 50.0%'' @ [newline] @
          ''Size: 1.0 MB'' @ [newline] @
          ''Speed: 256.0 kB/s'')"
proof -
  have a: "(0::nat) < 1024000" and b: "(512000::nat) < 2 ^ 1000" and c: "(1024000::nat) < 2 ^ 1000"
    by simp_all
  note th = progress_rendering [OF a b c, of 0 sample_env 2000000 0]
  from th obtain k where k: "render_progress 512000 1024000 =
        Inr (decimal (k div 10) @ ''.'' @ decimal (k mod 10))"
      "\<bar>of_nat k / 10 - 100 * of_nat 512000 / (of_nat 1024000 :: rat)\<bar>
         \<le> 1 / 20 + (100 * of_nat 512000 / of_nat 1024000) / 2 ^ 51"
    by blast
  have "100 * of_nat 512000 / (of_nat 1024000 :: rat) = 50"
    by simp
  with k(2) have "\<bar>of_nat k / 10 - (50 :: rat)\<bar> \<le> 1 / 20 + 50 / 2 ^ 51"
    by simp
  then have "of_nat k / 10 - (50 :: rat) \<le> 1 / 20 + 50 / 2 ^ 51"
    and "- (of_nat k / 10 - (50 :: rat)) \<le> 1 / 20 + 50 / 2 ^ 51"
    by (rule abs_le_D1, rule abs_le_D2)
  then have "(of_nat k :: rat) < of_nat 501" "(of_nat 499 :: rat) < of_nat k"
    by simp_all
  then have "k < 501" "499 < k"
    by (simp_all only: of_nat_less_iff)
  then have "k = 500" by simp
  with k(1) have percent: "render_progress 512000 1024000 = Inr ''50.0''"
    by (simp only: fifty)
  from th have empty: "render_speed sample_env 512000 0 = Inr []"
    by blast
  from th obtain p sp where msg: "render_progress 512000 1024000 = Inr p"
      "render_speed sample_env 512000 (2000000 - 0) = Inr sp"
      "progress_text sample_env 2000000 512000 1024000 0 =
         Inr (emoji_inbox @ '' Downloading...'' @ [newline] @
              ''Progress: '' @ p @ ''%'' @ [newline] @
              ''Size: '' @ naturalsize sample_env (PyInt (int 1024000)) @ [newline] @
              ''Speed: '' @ sp)"
    by blast
  have speed: "render_speed sample_env 512000 (2000000 - 0) = Inr ''256.0 kB/s''"
    by (simp add: sample_speed)
  from msg(1) percent have "p = ''50.0''" by simp
  moreover from msg(2) speed have "sp = ''256.0 kB/s''" by simp
  ultimately have "progress_text sample_env 2000000 512000 1024000 0 =
     Inr (emoji_inbox @ '' Downloading...'' @ [newline] @
          ''Progress: 50.0%'' @ [newline] @
          ''Size: 1.0 MB'' @ [newline] @
          ''Speed: 256.0 kB/s'')"
    using msg(3) by (simp add: sample_size)
  with percent speed empty show ?thesis by blast
qed

text \<open>
  Against C9 as stated: the percentage rendered is not the exact percentage to one
  decimal place.  With 3014656 of 10485760 bytes the exact percentage is 28.75, which
  is 28.8 to one decimal place, and \<open>28.7\<close> is rendered; with 6422528 of 10485760
  bytes it is 61.25, which is 61.2 to one decimal place, and \<open>61.3\<close> is rendered.  One
  tie is rendered downwards and the other upwards, so the rendering is that of the
  exact percentage under no rule for ties.
\<close>

theorem exact_tie_rendering_counterexample:
  "100 * 3014656 / (10485760 :: rat) = 115 / 4 \<and>
   one_decimal_place (115 / 4) = ''28.8'' \<and>
   render_progress 3014656 10485760 = Inr ''28.7'' \<and>
   100 * 6422528 / (10485760 :: rat) = 245 / 4 \<and>
   one_decimal_place (245 / 4) = ''61.2'' \<and>
   render_progress 6422528 10485760 = Inr ''61.3''"
proof -
  have exact: "100 * 3014656 / (10485760 :: rat) = 115 / 4"
    "100 * 6422528 / (10485760 :: rat) = 245 / 4"
    by simp_all
  have spec: "one_decimal_place (115 / 4) = ''28.8''" "one_decimal_place (245 / 4) = ''61.2''"
    unfolding one_decimal_place_def by code_simp+
  have q1: "int_truediv 3014656 10485760 = Inr (round_to_double (23 / 80))"
    and q2: "int_truediv 6422528 10485760 = Inr (round_to_double (49 / 80))"
    by (simp_all add: int_truediv_def Let_def overflows_23 overflows_49)
  have "render_progress 3014656 10485760 = Inr ''28.7''"
    by (simp add: render_progress_def q1 percent_23)
  moreover have "render_progress 6422528 10485760 = Inr ''61.3''"
    by (simp add: render_progress_def q2 percent_49)
  ultimately show ?thesis
    using exact spec by (simp only: simp_thms)
qed

text \<open>
  C10.  The division by the total is not guarded: with a total of zero the
  computation of the text raises \<open>ZeroDivisionError\<close>, and so does the callback,
  before anything is sent or stored; with a positive total and byte counts below
  \<open>2\<^sup>1\<^sup>0\<^sup>0\<^sup>0\<close> (an \<open>int\<close> beyond the float range makes a conversion to a float raise
  \<open>OverflowError\<close>) the text is computed, whatever the elapsed time is; the division by
  the elapsed time is guarded: when the clock has not advanced the rate is the empty
  string; and with a positive total, whatever the byte counts are, the computation
  does not raise \<open>ZeroDivisionError\<close>.
\<close>

theorem division_by_total_is_unguarded:
  fixes current total' :: nat
  shows "progress_text env now current 0 start_time =
           Inl (Raised ZeroDivisionError ''division by zero'') \<and>
         progress_callback env now current 0 chat_id start_time s =
           (Some (Raised ZeroDivisionError ''division by zero''), s) \<and>
         (0 < total' \<and> current < 2 ^ 1000 \<and> total' < 2 ^ 1000 \<longrightarrow>
            (\<exists>text. progress_text env now current total' start_time = Inr text)) \<and>
         (now \<le> start_time \<longrightarrow> render_speed env current (now - start_time) = Inr []) \<and>
         (0 < total' \<longrightarrow>
            (\<forall>m. progress_text env now current total' start_time \<noteq>
                   Inl (Raised ZeroDivisionError m)))"
proof -
  have zero: "progress_text env now current 0 start_time =
      Inl (Raised ZeroDivisionError ''division by zero'')"
    by (simp add: progress_text_def render_progress_zero)
  have "\<exists>text. progress_text env now current total' start_time = Inr text"
    if pos: "0 < total'" and small: "current < 2 ^ 1000" and bound: "total' < 2 ^ 1000"
  proof -
    obtain p where p: "render_progress current total' = Inr p"
      using render_progress_defined [OF pos small] by blast
    obtain sp where sp: "render_speed env current (now - start_time) = Inr sp"
      using render_speed_defined [OF small] by blast
    show ?thesis
      using progress_text_composed [OF p sp bound] by blast
  qed
  moreover have "render_speed env current (now - start_time) = Inr []" if "now \<le> start_time"
    by (rule render_speed_guarded) (use that in simp)
  moreover have "progress_text env now current total' start_time \<noteq>
      Inl (Raised ZeroDivisionError m)" if "0 < total'" for m
    using progress_text_error_class [of env now current total' start_time
        "Raised ZeroDivisionError m"] that
    by auto
  ultimately show ?thesis
    using zero by (simp add: progress_callback_def)
qed

theorem division_by_total_is_unguarded_witness:
  "progress_callback quiet_env 2000000 512000 0 1 0 empty_state =
     (Some (Raised ZeroDivisionError ''division by zero''), empty_state) \<and>
   (\<exists>text. progress_text quiet_env 2000000 512000 1024000 0 = Inr text) \<and>
   render_speed quiet_env 512000 (0 - 2000000) = Inr [] \<and>
   progress_text quiet_env 2000000 512000 1024000 0 \<noteq>
     Inl (Raised ZeroDivisionError ''division by zero'')"
proof -
  have a: "(0::nat) < 1024000 \<and> (512000::nat) < 2 ^ 1000 \<and> (1024000::nat) < 2 ^ 1000"
    by simp
  have b: "(0::int) \<le> 2000000"
    by simp
  have c: "(0::nat) < 1024000"
    by simp
  from division_by_total_is_unguarded [of quiet_env 2000000 512000 0 1 empty_state]
  have one: "progress_callback quiet_env 2000000 512000 0 1 0 empty_state =
     (Some (Raised ZeroDivisionError ''division by zero''), empty_state)"
    by blast
  from division_by_total_is_unguarded [of quiet_env 2000000 512000 0 1 empty_state 1024000] a
  have two: "\<exists>text. progress_text quiet_env 2000000 512000 1024000 0 = Inr text"
    by blast
  from division_by_total_is_unguarded [of quiet_env 0 512000 2000000 1 empty_state] b
  have three: "render_speed quiet_env 512000 (0 - 2000000) = Inr []"
    by blast
  from division_by_total_is_unguarded [of quiet_env 2000000 512000 0 1 empty_state 1024000] c
  have four: "progress_text quiet_env 2000000 512000 1024000 0 \<noteq>
     Inl (Raised ZeroDivisionError ''division by zero'')"
    by blast
  from one two three four show ?thesis by blast
qed

end
